theory Spec2Isabelle
  imports Complex_Main
begin

section \<open>The anisotropic Matern kernel of gptools (\<^verbatim>\<open>src/gptools/kernel/matern.py\<close>)\<close>

text \<open>
  A shallow embedding of the class \<^verbatim>\<open>MaternKernel\<close>. Conventions:

  \<^item> A numpy array of floats is a \<^typ>\<open>real list\<close>; the batch \<^verbatim>\<open>tau\<close> of shape \<^verbatim>\<open>(M, N)\<close>
    is a record holding \<^verbatim>\<open>N\<close> and the list of its \<^verbatim>\<open>M\<close> rows. Arithmetic is the
    arithmetic of the reals: rounding, overflow, infinities and NaN of IEEE floats are
    not represented there.
  \<^item> Where a property depends on the doubles themselves, \<^verbatim>\<open>_compute_dk_dy\<close> is embedded
    a second time (\<open>compute_dk_dy_ieee\<close>) over a model of IEEE binary64 arithmetic with
    rounding to nearest, overflow, infinities and NaN.
  \<^item> The object's attribute \<^verbatim>\<open>self.params\<close> and the warnings emitted so far through
    \<^verbatim>\<open>warnings.warn\<close> make up the state; every method takes the state and returns the
    new one together with its result.
  \<^item> An exception is a value: a method returns \<open>Inl e\<close> where the Python raises.
  \<^item> \<^verbatim>\<open>scipy.special.gamma\<close>, \<^verbatim>\<open>kv\<close>, \<^verbatim>\<open>kvp\<close> and the routines of \<^verbatim>\<open>mpmath\<close> are
    external numerical libraries: they are parameters of the model (the record
    \<open>special\<close>), and nothing is assumed about them unless a theorem says so.
  \<^item> The loop \<^verbatim>\<open>for k in xrange(0, n + 1)\<close> is read with the meaning of Python 2's
    \<^verbatim>\<open>xrange\<close>: \<open>k = 0, \<dots>, n\<close>; \<^verbatim>\<open>mpmath\<close> is taken to be installed.
\<close>

subsection \<open>State, exceptions and warnings\<close>

datatype error = IndexError | ValueError

datatype warning = RuntimeWarning string

record state =
  params :: "real list"
  warned :: "warning list"

type_synonym 'a result = "error + 'a"

type_synonym 'a comp = "state \<Rightarrow> 'a result \<times> state"

definition ret :: "'a \<Rightarrow> 'a comp" where
  "ret x s = (Inr x, s)"

definition raise :: "error \<Rightarrow> 'a comp" where
  "raise e s = (Inl e, s)"

text \<open>Sequencing: an exception of the first computation skips the second.\<close>

definition bnd :: "'a comp \<Rightarrow> ('a \<Rightarrow> 'b comp) \<Rightarrow> 'b comp" where
  "bnd m f s = (case m s of (Inl e, s') \<Rightarrow> (Inl e, s') | (Inr x, s') \<Rightarrow> f x s')"

text \<open>
  \<^verbatim>\<open>warnings.warn(msg, RuntimeWarning)\<close>: the warning is recorded and the call goes on.
  What the warning filters of the process then do with it (print it once, or always) is
  outside the model.
\<close>

definition warn :: "warning \<Rightarrow> unit comp" where
  "warn w s = (Inr (), s\<lparr>warned := warned s @ [w]\<rparr>)"

subsection \<open>Arrays\<close>

record matrix =
  ncols :: nat
  rows :: "real list list"

text \<open>\<^verbatim>\<open>x[mask]\<close> for a boolean mask as long as \<^verbatim>\<open>x\<close>.\<close>

fun mask_select :: "bool list \<Rightarrow> 'a list \<Rightarrow> 'a list" where
  "mask_select (m # ms) (x # xs) = (if m then x # mask_select ms xs else mask_select ms xs)"
| "mask_select _ _ = []"

text \<open>\<^verbatim>\<open>x[mask] += v\<close>, where \<^verbatim>\<open>v\<close> has one entry per selected position.\<close>

fun mask_add :: "bool list \<Rightarrow> real list \<Rightarrow> real list \<Rightarrow> real list" where
  "mask_add (m # ms) (x # xs) vs =
     (if m then (case vs of [] \<Rightarrow> x # xs | v # vs' \<Rightarrow> (x + v) # mask_add ms xs vs')
      else x # mask_add ms xs vs)"
| "mask_add _ xs _ = xs"

text \<open>\<^verbatim>\<open>x[mask] = v\<close> for a scalar \<^verbatim>\<open>v\<close>.\<close>

fun mask_assign :: "bool list \<Rightarrow> real list \<Rightarrow> real \<Rightarrow> real list" where
  "mask_assign (m # ms) (x # xs) v = (if m then v else x) # mask_assign ms xs v"
| "mask_assign _ xs _ = xs"

text \<open>
  \<^verbatim>\<open>tau[mask]\<close>: the selected rows. numpy raises \<^verbatim>\<open>IndexError\<close> when the mask is not as
  long as the first axis.
\<close>

definition select_rows :: "bool list \<Rightarrow> matrix \<Rightarrow> matrix comp" where
  "select_rows m tau =
     (if length m = length (rows tau) then ret (tau\<lparr>rows := mask_select m (rows tau)\<rparr>)
      else raise IndexError)"

text \<open>
  \<^verbatim>\<open>x *= y\<close> on one-dimensional arrays: elementwise when the lengths agree, \<^verbatim>\<open>y\<close> of
  length one is broadcast, anything else is a \<^verbatim>\<open>ValueError\<close>.
\<close>

definition imul :: "real list \<Rightarrow> real list \<Rightarrow> real list comp" where
  "imul xs ys =
     (if length ys = length xs then ret (map (\<lambda>(x, y). x * y) (zip xs ys))
      else if length ys = 1 then ret (map (\<lambda>x. x * hd ys) xs)
      else raise ValueError)"

subsection \<open>The numerical libraries\<close>

text \<open>
  \<open>gamma\<close> is \<^verbatim>\<open>scipy.special.gamma\<close>, \<open>kv v z\<close> is \<^verbatim>\<open>scipy.special.kv(v, z)\<close>,
  \<open>kvp v z n\<close> is \<^verbatim>\<open>scipy.special.kvp(v, z, n=n)\<close>, \<open>besselk\<close> is \<^verbatim>\<open>mpmath.besselk\<close>;
  \<open>diff_singular f x n\<close> is
  \<^verbatim>\<open>mpmath.chop(mpmath.diff(f, x, n=n, singular=True, direction=1))\<close> for a function of
  one argument and \<open>diff_singular_partial f x ns\<close> the same call for a function of
  several arguments with the tuple \<open>ns\<close> of orders.
\<close>

record special =
  gamma :: "real \<Rightarrow> real"
  kv :: "real \<Rightarrow> real \<Rightarrow> real"
  kvp :: "real \<Rightarrow> real \<Rightarrow> nat \<Rightarrow> real"
  besselk :: "real \<Rightarrow> real \<Rightarrow> real"
  diff_singular :: "(real \<Rightarrow> real) \<Rightarrow> real \<Rightarrow> nat \<Rightarrow> real"
  diff_singular_partial :: "(real list \<Rightarrow> real list result) \<Rightarrow> real list \<Rightarrow> nat list \<Rightarrow> real"

text \<open>\<^verbatim>\<open>scipy.special.binom(n, k)\<close> at integers: the binomial coefficient.\<close>

definition binom :: "nat \<Rightarrow> nat \<Rightarrow> real" where
  "binom n k = real (n choose k)"

text \<open>\<^verbatim>\<open>scipy.special.poch(z, m)\<close> at an integer \<^verbatim>\<open>m\<close>: the rising factorial \<open>z (z + 1) \<dots> (z + m - 1)\<close>.\<close>

definition poch :: "real \<Rightarrow> nat \<Rightarrow> real" where
  "poch z m = pochhammer z m"

text \<open>
  \<^verbatim>\<open>scipy.misc.factorial\<close>. The kernel calls it at \<^verbatim>\<open>n\<close> and at \<^verbatim>\<open>m = n / 2.0\<close> for an even
  \<^verbatim>\<open>n\<close> only, that is at integer values.
\<close>

definition factorial :: "real \<Rightarrow> real" where
  "factorial x = fact (nat \<lfloor>x\<rfloor>)"

text \<open>
  The operator \<^verbatim>\<open>**\<close> on floats. An exponent that is a non-negative integer (as in
  \<^verbatim>\<open>l**2.0\<close> and in \<^verbatim>\<open>(-1.0)**m\<close>) is a repeated product, for every base; otherwise the
  power of a positive base is \<open>powr\<close>. A zero base with a negative exponent (infinity
  in numpy) and a negative base with a fractional exponent (NaN in numpy) have no real
  value; the model is not meant for them.
\<close>

definition float_pow :: "real \<Rightarrow> real \<Rightarrow> real" where
  "float_pow x a = (if 0 \<le> a \<and> of_int \<lfloor>a\<rfloor> = a then x ^ nat \<lfloor>a\<rfloor> else x powr a)"

subsection \<open>Collaborators outside this file\<close>

text \<open>
  Modelled from the spec: \<^verbatim>\<open>ChainRuleKernel._compute_r2l2\<close> is inherited from
  \<^verbatim>\<open>gptools/kernel/core.py\<close>, which is not among the sources. The spec gives the scaled
  squared distance of a row as the sum over the dimensions \<open>i\<close> of \<^verbatim>\<open>(tau_i / l_i)^2\<close>, the
  length scales being the entries of the hyperparameter vector from index 2 on.
\<close>

definition compute_r2l2 :: "matrix \<Rightarrow> real list comp" where
  "compute_r2l2 tau s =
     ret (map (\<lambda>row. sum_list (map (\<lambda>(t, l). (t / l)\<^sup>2) (zip row (drop 2 (params s)))))
            (rows tau)) s"

text \<open>
  Modelled from the spec: \<^verbatim>\<open>generate_set_partitions\<close> comes from \<^verbatim>\<open>gptools/utils.py\<close>,
  which is not among the sources. The spec asks for every partition of the positions of
  the multi-index into disjoint non-empty blocks, each exactly once, in no particular
  order. Here the first element either opens a block of its own or joins one block of
  a partition of the rest.
\<close>

fun insert_each :: "'a \<Rightarrow> 'a list list \<Rightarrow> 'a list list list" where
  "insert_each x [] = []"
| "insert_each x (blk # p) = ((x # blk) # p) # map ((#) blk) (insert_each x p)"

fun generate_set_partitions :: "'a list \<Rightarrow> 'a list list list" where
  "generate_set_partitions [] = [[]]"
| "generate_set_partitions (x # xs) =
     concat (map (\<lambda>p. ([x] # p) # insert_each x p) (generate_set_partitions xs))"

subsection \<open>The methods of \<^verbatim>\<open>MaternKernel\<close>\<close>

text \<open>The property \<^verbatim>\<open>nu\<close>: \<^verbatim>\<open>return self.params[1]\<close>.\<close>

definition nu :: "real comp" where
  "nu s = (if 1 < length (params s) then ret (params s ! 1) s else raise IndexError s)"

text \<open>
  \<^verbatim>\<open>_compute_y(tau, return_r2l2=True)\<close> returns the pair \<^verbatim>\<open>(y, r2l2)\<close>;
  \<^verbatim>\<open>_compute_y(tau)\<close> returns \<^verbatim>\<open>y\<close> alone.
\<close>

definition compute_y_r2l2 :: "matrix \<Rightarrow> (real list \<times> real list) comp" where
  "compute_y_r2l2 tau =
     bnd (compute_r2l2 tau) (\<lambda>r2l2.
     bnd nu (\<lambda>v.
     ret (map (\<lambda>r. sqrt (2 * v * r)) r2l2, r2l2)))"

definition compute_y :: "matrix \<Rightarrow> real list comp" where
  "compute_y tau = bnd (compute_y_r2l2 tau) (\<lambda>(y, r2l2). ret y)"

text \<open>\<^verbatim>\<open>_compute_y_wrapper(*args)\<close>: the arguments become the single row of a batch.\<close>

definition compute_y_wrapper :: "real list \<Rightarrow> real list comp" where
  "compute_y_wrapper args = compute_y \<lparr>ncols = length args, rows = [args]\<rparr>"

text \<open>\<^verbatim>\<open>_compute_k(tau)\<close>.\<close>

definition compute_k :: "special \<Rightarrow> matrix \<Rightarrow> real list comp" where
  "compute_k lib tau =
     bnd (compute_y_r2l2 tau) (\<lambda>(y, r2l2).
     bnd nu (\<lambda>v.
       let k = map (\<lambda>yi. float_pow 2 (1 - v) / gamma lib v * float_pow yi v * kv lib v yi) y
       in ret (mask_assign (map (\<lambda>r. r = 0) r2l2) k 1)))"

text \<open>\<^verbatim>\<open>_compute_dk_dy(y, n)\<close>. The body of the loop over \<^verbatim>\<open>k\<close> is \<open>leibniz_term\<close>.\<close>

definition leibniz_term :: "special \<Rightarrow> real \<Rightarrow> nat \<Rightarrow> nat \<Rightarrow> real \<Rightarrow> real" where
  "leibniz_term lib v n k yi =
     binom n k * poch (1 - real k + v) k * float_pow yi (- real k + v) * kvp lib v yi (n - k)"

definition compute_dk_dy :: "special \<Rightarrow> real list \<Rightarrow> nat \<Rightarrow> real list comp" where
  "compute_dk_dy lib y n =
     bnd nu (\<lambda>v.
       let dk_dy = replicate (length y) 0;
           non_zero_idxs = map (\<lambda>yi. yi \<noteq> 0) y;
           dk_dy = foldl (\<lambda>dk_dy k. mask_add non_zero_idxs dk_dy
                            (map (leibniz_term lib v n k) (mask_select non_zero_idxs y)))
                     dk_dy [0..<n + 1]
       in
       bnd (if real n \<ge> 2 * v
            then warn (RuntimeWarning ''n >= 2*nu can yield inaccurate results.'')
            else ret ()) (\<lambda>_.
       let dk_dy =
             (if real n < 2 * v then
                (if n mod 2 = 1 then mask_assign (map Not non_zero_idxs) dk_dy 0
                 else
                   let m = real n / 2 in
                   mask_assign (map Not non_zero_idxs) dk_dy
                     (float_pow (- 1) m * float_pow 2 (v - 1 - real n) * gamma lib (v - m) *
                      factorial (real n) / factorial m))
              else
                (let core_expr = (\<lambda>x. float_pow x v * besselk lib v x);
                     deriv = diff_singular lib core_expr 0 n
                 in mask_assign (map Not non_zero_idxs) dk_dy deriv))
       in ret (map (\<lambda>d. d * (float_pow 2 (1 - v) / gamma lib v)) dk_dy)))"

text \<open>\<^verbatim>\<open>_compute_dT_dtau(tau, b)\<close>; \<^verbatim>\<open>scipy.unique\<close> gives the sorted distinct entries.\<close>

definition compute_dT_dtau :: "matrix \<Rightarrow> nat list \<Rightarrow> real list comp" where
  "compute_dT_dtau tau b s =
     (let unique_d = remdups (sort b) in
      if length b \<ge> 3 \<or> length unique_d > 1 then ret (replicate (length (rows tau)) 0) s
      else if unique_d = [] then raise IndexError s
      else
        let tau_idx = hd unique_d in
        if length b = 1 then
          (if tau_idx < ncols tau \<and> 2 + tau_idx < length (params s)
           then ret (map (\<lambda>row. 2 * (row ! tau_idx) / float_pow (params s ! (2 + tau_idx)) 2)
                      (rows tau)) s
           else raise IndexError s)
        else
          (if 2 + tau_idx < length (params s)
           then ret (map (\<lambda>one. 2 / float_pow (params s ! (2 + tau_idx)) 2 * one)
                      (replicate (length (rows tau)) 1)) s
           else raise IndexError s))"

text \<open>
  \<^verbatim>\<open>_compute_dy_dtau_on_partition(tau, p, r2l2)\<close>; \<open>blocks_loop\<close> is its loop \<^verbatim>\<open>for b in p\<close>
  and \<open>partition_coeff v n r\<close> the entry for one row of the array the loop starts from,
  \<^verbatim>\<open>scipy.sqrt(2.0 * self.nu) * scipy.special.poch(1 - n + 0.5, n) * (r2l2)**(-n + 0.5)\<close>.
\<close>

fun blocks_loop :: "matrix \<Rightarrow> nat list list \<Rightarrow> real list \<Rightarrow> real list comp" where
  "blocks_loop tau [] dy_dtau = ret dy_dtau"
| "blocks_loop tau (b # p) dy_dtau =
     bnd (compute_dT_dtau tau b) (\<lambda>dT.
     bnd (imul dy_dtau dT) (\<lambda>dy_dtau.
     blocks_loop tau p dy_dtau))"

definition partition_coeff :: "real \<Rightarrow> nat \<Rightarrow> real \<Rightarrow> real" where
  "partition_coeff v n r = sqrt (2 * v) * poch (1 - real n + 1 / 2) n * float_pow r (- real n + 1 / 2)"

definition compute_dy_dtau_on_partition :: "matrix \<Rightarrow> nat list list \<Rightarrow> real list \<Rightarrow> real list comp" where
  "compute_dy_dtau_on_partition tau p r2l2 =
     bnd nu (\<lambda>v.
       let n = length p;
           dy_dtau = map (partition_coeff v n) r2l2
       in blocks_loop tau p dy_dtau)"

text \<open>
  \<^verbatim>\<open>_compute_dy_dtau(tau, b, r2l2)\<close>; \<open>partitions_loop\<close> is its loop
  \<^verbatim>\<open>for p in deriv_partitions\<close> and \<open>count_derivs\<close> its loop \<^verbatim>\<open>for d in b: derivs[d] += 1\<close>.
\<close>

fun partitions_loop ::
  "matrix \<Rightarrow> real list \<Rightarrow> bool list \<Rightarrow> nat list list list \<Rightarrow> real list \<Rightarrow> real list comp" where
  "partitions_loop tau r2l2 non_zero_idxs [] dy_dtau = ret dy_dtau"
| "partitions_loop tau r2l2 non_zero_idxs (p # ps) dy_dtau =
     bnd (select_rows non_zero_idxs tau) (\<lambda>tau_nz.
     bnd (compute_dy_dtau_on_partition tau_nz p (mask_select non_zero_idxs r2l2)) (\<lambda>t.
     partitions_loop tau r2l2 non_zero_idxs ps (mask_add non_zero_idxs dy_dtau t)))"

fun count_derivs :: "nat list \<Rightarrow> nat list \<Rightarrow> nat list comp" where
  "count_derivs derivs [] = ret derivs"
| "count_derivs derivs (d # b) =
     (if d < length derivs then count_derivs (derivs[d := derivs ! d + 1]) b
      else raise IndexError)"

definition compute_dy_dtau :: "special \<Rightarrow> matrix \<Rightarrow> nat list \<Rightarrow> real list \<Rightarrow> real list comp" where
  "compute_dy_dtau lib tau b r2l2 =
     (let deriv_partitions = generate_set_partitions b;
          dy_dtau = replicate (length r2l2) 0;
          non_zero_idxs = map (\<lambda>r. r \<noteq> 0) r2l2
      in
      bnd (partitions_loop tau r2l2 non_zero_idxs deriv_partitions dy_dtau) (\<lambda>dy_dtau.
      bnd (count_derivs (replicate (ncols tau) 0) b) (\<lambda>derivs s.
        ret (mask_assign (map Not non_zero_idxs) dy_dtau
               (diff_singular_partial lib (\<lambda>args. fst (compute_y_wrapper args s))
                  (replicate (ncols tau) 0) derivs)) s)))"

text \<open>
  The value that \<^verbatim>\<open>_compute_dk_dy\<close> writes to the rows with \<^verbatim>\<open>y == 0\<close>, before the final
  scaling: the three assignments \<^verbatim>\<open>dk_dy[~non_zero_idxs] = ...\<close> of the method, collected
  in one expression (\<open>compute_dk_dy_run\<close> below relates it to the method).
\<close>

definition origin_value :: "special \<Rightarrow> real \<Rightarrow> nat \<Rightarrow> real" where
  "origin_value lib v n =
   (if real n < 2 * v then
      (if n mod 2 = 1 then 0
       else float_pow (- 1) (real n / 2) * float_pow 2 (v - 1 - real n) * gamma lib (v - real n / 2) *
            factorial (real n) / factorial (real n / 2))
    else diff_singular lib (\<lambda>x. float_pow x v * besselk lib v x) 0 n)"

subsection \<open>IEEE doubles\<close>

text \<open>
  The definitions above compute over the reals. What the code returns is a double, and
  two of the properties below turn on that: this part gives the results of double
  arithmetic as values. A finite double is \<open>Finite m e\<close>, the number \<open>m * 2\<^sup>e\<close> (a value has
  several such pairs; \<open>feq\<close> compares values); the other doubles are the two infinities
  and NaN. The sign of a zero is not kept: it decides nothing in what follows.
\<close>

datatype double = Finite int int | PosInf | NegInf | NaN

text \<open>\<open>bit_length n\<close> is the number of binary digits of a positive \<open>n\<close>.\<close>

function bit_length :: "int \<Rightarrow> int" where
  "bit_length n = (if n \<le> 0 then 0 else 1 + bit_length (n div 2))"
  by pat_completeness auto
termination
  by (relation "measure (\<lambda>n. nat n)") auto

declare bit_length.simps [simp del]

text \<open>
  \<open>rne_shift m k\<close> is \<open>m / 2\<^sup>k\<close> rounded to the nearest integer, a tie to the even one.
  \<open>round_double m e\<close> is the double nearest to \<open>m * 2\<^sup>e\<close>: the mantissa keeps 53 binary
  digits, the exponent does not go below \<open>-1074\<close> (subnormal numbers), and a rounded value
  of \<open>2\<^sup>1\<^sup>0\<^sup>2\<^sup>4\<close> or more is an infinity.
\<close>

definition rne_shift :: "int \<Rightarrow> nat \<Rightarrow> int" where
  "rne_shift m k =
     (if k = 0 then m
      else let q = m div 2 ^ k; r = m mod 2 ^ k; h = 2 ^ (k - 1)
           in if r > h \<or> (r = h \<and> odd q) then q + 1 else q)"

definition overflow_check :: "int \<Rightarrow> int \<Rightarrow> double" where
  "overflow_check m e =
     (if bit_length \<bar>m\<bar> + e > 1024 then (if 0 < m then PosInf else NegInf)
      else Finite m e)"

definition round_double :: "int \<Rightarrow> int \<Rightarrow> double" where
  "round_double m e =
     (let k = max (bit_length \<bar>m\<bar> - 53) (- 1074 - e)
      in if k \<le> 0 then overflow_check m e else overflow_check (rne_shift m (nat k)) (e + k))"

text \<open>
  Negation, \<^verbatim>\<open>+\<close>, \<^verbatim>\<open>-\<close>, \<^verbatim>\<open>*\<close> and \<^verbatim>\<open>/\<close> on doubles: the exact result, rounded once. The
  quotient is rounded from its first digits and a last digit that records whether the
  division left a remainder. Products and quotients of an infinity and a zero, and the
  difference of equal infinities, are NaN.
\<close>

definition fneg :: "double \<Rightarrow> double" where
  "fneg x = (case x of Finite m e \<Rightarrow> Finite (- m) e | PosInf \<Rightarrow> NegInf | NegInf \<Rightarrow> PosInf
             | NaN \<Rightarrow> NaN)"

fun fadd :: "double \<Rightarrow> double \<Rightarrow> double" where
  "fadd (Finite m1 e1) (Finite m2 e2) =
     (let e = min e1 e2 in round_double (m1 * 2 ^ nat (e1 - e) + m2 * 2 ^ nat (e2 - e)) e)"
| "fadd NaN _ = NaN"
| "fadd _ NaN = NaN"
| "fadd (Finite m e) y = y"
| "fadd x (Finite m e) = x"
| "fadd x y = (if x = y then x else NaN)"

definition fsub :: "double \<Rightarrow> double \<Rightarrow> double" where
  "fsub x y = fadd x (fneg y)"

fun fmul :: "double \<Rightarrow> double \<Rightarrow> double" where
  "fmul (Finite m1 e1) (Finite m2 e2) = round_double (m1 * m2) (e1 + e2)"
| "fmul NaN _ = NaN"
| "fmul _ NaN = NaN"
| "fmul (Finite m e) y = (if m = 0 then NaN else if (0 < m) = (y = PosInf) then PosInf else NegInf)"
| "fmul x (Finite m e) = (if m = 0 then NaN else if (0 < m) = (x = PosInf) then PosInf else NegInf)"
| "fmul x y = (if x = y then PosInf else NegInf)"

definition div_round :: "int \<Rightarrow> int \<Rightarrow> int \<Rightarrow> int \<Rightarrow> double" where
  "div_round m1 e1 m2 e2 =
     (let s = nat (max 0 (bit_length \<bar>m2\<bar> - bit_length \<bar>m1\<bar> + 55));
          n = \<bar>m1\<bar> * 2 ^ s;
          q = n div \<bar>m2\<bar>;
          r = n mod \<bar>m2\<bar>;
          mag = 2 * q + (if r = 0 then 0 else 1);
          sg = (if (0 < m1) = (0 < m2) then 1 else - 1)
      in round_double (sg * mag) (e1 - e2 - int s - 1))"

fun fdiv :: "double \<Rightarrow> double \<Rightarrow> double" where
  "fdiv (Finite m1 e1) (Finite m2 e2) =
     (if m2 = 0 then (if m1 = 0 then NaN else if 0 < m1 then PosInf else NegInf)
      else if m1 = 0 then Finite 0 0
      else div_round m1 e1 m2 e2)"
| "fdiv NaN _ = NaN"
| "fdiv _ NaN = NaN"
| "fdiv (Finite m e) y = Finite 0 0"
| "fdiv x (Finite m e) = (if (0 \<le> m) = (x = PosInf) then PosInf else NegInf)"
| "fdiv x y = NaN"

text \<open>The comparisons \<^verbatim>\<open><\<close> and \<^verbatim>\<open>==\<close>, both false on NaN, and the double of a Python integer.\<close>

fun flt :: "double \<Rightarrow> double \<Rightarrow> bool" where
  "flt (Finite m1 e1) (Finite m2 e2) =
     (let e = min e1 e2 in m1 * 2 ^ nat (e1 - e) < m2 * 2 ^ nat (e2 - e))"
| "flt NaN _ = False"
| "flt _ NaN = False"
| "flt x y = (x \<noteq> y \<and> (x = NegInf \<or> y = PosInf))"

fun feq :: "double \<Rightarrow> double \<Rightarrow> bool" where
  "feq (Finite m1 e1) (Finite m2 e2) =
     (let e = min e1 e2 in m1 * 2 ^ nat (e1 - e) = m2 * 2 ^ nat (e2 - e))"
| "feq NaN _ = False"
| "feq _ NaN = False"
| "feq x y = (x = y)"

definition of_py_int :: "int \<Rightarrow> double" where
  "of_py_int i = round_double i 0"

subsection \<open>The outer derivative on doubles\<close>

text \<open>
  The numerical libraries on doubles: \<open>pow_d\<close> is the operator \<^verbatim>\<open>**\<close> (the C library's
  \<^verbatim>\<open>pow\<close>), \<open>gamma_d\<close>, \<open>kvp_d\<close>, \<open>binom_d\<close> and \<open>poch_d\<close> the functions of
  \<^verbatim>\<open>scipy.special\<close>, \<open>factorial_d\<close> is \<^verbatim>\<open>scipy.misc.factorial\<close>, and \<open>diff_singular_d v n\<close>
  the double that the call of \<^verbatim>\<open>mpmath.diff\<close> in \<^verbatim>\<open>_compute_dk_dy\<close> leaves in the array for
  \<^verbatim>\<open>self.nu = v\<close> and the order \<open>n\<close>.
\<close>

record special_ieee =
  pow_d :: "double \<Rightarrow> double \<Rightarrow> double"
  gamma_d :: "double \<Rightarrow> double"
  kvp_d :: "double \<Rightarrow> double \<Rightarrow> nat \<Rightarrow> double"
  binom_d :: "nat \<Rightarrow> nat \<Rightarrow> double"
  poch_d :: "double \<Rightarrow> nat \<Rightarrow> double"
  factorial_d :: "double \<Rightarrow> double"
  diff_singular_d :: "double \<Rightarrow> nat \<Rightarrow> double"

fun mask_add_ieee :: "bool list \<Rightarrow> double list \<Rightarrow> double list \<Rightarrow> double list" where
  "mask_add_ieee (m # ms) (x # xs) vs =
     (if m then (case vs of [] \<Rightarrow> x # xs | v # vs' \<Rightarrow> fadd x v # mask_add_ieee ms xs vs')
      else x # mask_add_ieee ms xs vs)"
| "mask_add_ieee _ xs _ = xs"

fun mask_assign_ieee :: "bool list \<Rightarrow> double list \<Rightarrow> double \<Rightarrow> double list" where
  "mask_assign_ieee (m # ms) (x # xs) v = (if m then v else x) # mask_assign_ieee ms xs v"
| "mask_assign_ieee _ xs _ = xs"

text \<open>
  \<^verbatim>\<open>_compute_dk_dy(y, n)\<close> once more, line by line as \<open>compute_dk_dy\<close>, with every
  operation the operation on doubles; \<open>v\<close> is the double \<^verbatim>\<open>self.nu\<close>. Only the returned
  array is modelled here: the state and the warning are those of \<open>compute_dk_dy\<close>.
\<close>

definition leibniz_term_ieee :: "special_ieee \<Rightarrow> double \<Rightarrow> nat \<Rightarrow> nat \<Rightarrow> double \<Rightarrow> double" where
  "leibniz_term_ieee lib v n k yi =
     fmul (fmul (fmul (binom_d lib n k) (poch_d lib (fadd (of_py_int (1 - int k)) v) k))
                (pow_d lib yi (fadd (of_py_int (- int k)) v)))
          (kvp_d lib v yi (n - k))"

definition compute_dk_dy_ieee :: "special_ieee \<Rightarrow> double \<Rightarrow> double list \<Rightarrow> nat \<Rightarrow> double list" where
  "compute_dk_dy_ieee lib v y n =
     (let dk_dy = replicate (length y) (Finite 0 0);
          non_zero_idxs = map (\<lambda>yi. \<not> feq yi (of_py_int 0)) y;
          dk_dy = foldl (\<lambda>dk_dy k. mask_add_ieee non_zero_idxs dk_dy
                           (map (leibniz_term_ieee lib v n k) (mask_select non_zero_idxs y)))
                    dk_dy [0..<n + 1];
          dk_dy =
            (if flt (of_py_int (int n)) (fmul (Finite 2 0) v) then
               (if n mod 2 = 1 then mask_assign_ieee (map Not non_zero_idxs) dk_dy (Finite 0 0)
                else
                  let m = fdiv (of_py_int (int n)) (Finite 2 0) in
                  mask_assign_ieee (map Not non_zero_idxs) dk_dy
                    (fdiv (fmul (fmul (fmul (pow_d lib (Finite (- 1) 0) m)
                                            (pow_d lib (Finite 2 0)
                                               (fsub (fsub v (Finite 1 0)) (of_py_int (int n)))))
                                      (gamma_d lib (fsub v m)))
                                (factorial_d lib (of_py_int (int n))))
                          (factorial_d lib m)))
             else mask_assign_ieee (map Not non_zero_idxs) dk_dy (diff_singular_d lib v n));
          scale = fdiv (pow_d lib (Finite 2 0) (fsub (of_py_int 1) v)) (gamma_d lib v)
      in map (\<lambda>d. fmul d scale) dk_dy)"

subsection \<open>Reading results row by row\<close>

text \<open>
  \<open>dT_at tau b s i\<close> is the entry for row \<open>i\<close> of the array that \<^verbatim>\<open>_compute_dT_dtau(tau, b)\<close>
  returns in state \<open>s\<close> (0 where the call raises).
\<close>

definition dT_at :: "matrix \<Rightarrow> nat list \<Rightarrow> state \<Rightarrow> nat \<Rightarrow> real" where
  "dT_at tau b s i = (case fst (compute_dT_dtau tau b s) of Inr dT \<Rightarrow> dT ! i | Inl e \<Rightarrow> 0)"

text \<open>
  The remaining definitions serve the proofs. \<open>dT_row\<close> is the value of
  \<^verbatim>\<open>_compute_dT_dtau\<close> on one row and \<open>block_ok\<close> the condition under which the method
  indexes in range (\<open>dT_run\<close> below relates both to the method); \<open>partition_term\<close> is the
  term of one partition on one row, given as the pair of its \<open>r2l2\<close> and its \<open>tau\<close>;
  \<open>keeps_params\<close> says that a computation returns a state with the hyperparameters it
  started from.
\<close>

definition dT_row :: "real list \<Rightarrow> nat list \<Rightarrow> real list \<Rightarrow> real" where
  "dT_row ps b row =
     (let unique_d = remdups (sort b); tau_idx = hd unique_d in
      if length b \<ge> 3 \<or> length unique_d > 1 then 0
      else if length b = 1 then 2 * (row ! tau_idx) / float_pow (ps ! (2 + tau_idx)) 2
      else 2 / float_pow (ps ! (2 + tau_idx)) 2 * 1)"

definition block_ok :: "nat \<Rightarrow> real list \<Rightarrow> nat list \<Rightarrow> bool" where
  "block_ok N ps b = (b \<noteq> [] \<and> list_all (\<lambda>d. d < N \<and> 2 + d < length ps) b)"

definition partition_term :: "real \<Rightarrow> real list \<Rightarrow> nat list list \<Rightarrow> real \<times> real list \<Rightarrow> real" where
  "partition_term v ps p z =
     partition_coeff v (length p) (fst z) * prod_list (map (\<lambda>b. dT_row ps b (snd z)) p)"

definition keeps_params :: "'a comp \<Rightarrow> bool" where
  "keeps_params m = (\<forall>s. params (snd (m s)) = params s)"

subsection \<open>Sample inputs\<close>

text \<open>
  A concrete instance of the library interface and concrete inputs, on which the
  theorems below are instantiated. The functions of \<open>sample_special\<close> are placeholders
  with the shape of the library's (\<open>gamma\<close> is right at 1 and 2, and \<open>kvp v z 0\<close> is
  \<open>kv v z\<close>); the state is the spec's scenario \<open>sigma = 1\<close>, \<open>nu = 1.5\<close>, \<open>l1 = 1\<close>
  with the batch \<open>[[0], [1], [2]]\<close>.
\<close>

definition sample_special :: special where
  "sample_special =
     \<lparr>gamma = (\<lambda>x. 1), kv = (\<lambda>v z. exp (- z)), kvp = (\<lambda>v z n. (- 1) ^ n * exp (- z)),
      besselk = (\<lambda>v z. exp (- z)), diff_singular = (\<lambda>f x n. 0),
      diff_singular_partial = (\<lambda>f x ns. 0)\<rparr>"

definition sample_state :: state where
  "sample_state = \<lparr>params = [1, 3 / 2, 1], warned = []\<rparr>"

definition sample_tau :: matrix where
  "sample_tau = \<lparr>ncols = 1, rows = [[0], [1], [2]]\<rparr>"

text \<open>
  The doubles that the libraries return at the arguments used below:
  \<^verbatim>\<open>2.0**0.5 = 1.4142135623730951\<close>, \<^verbatim>\<open>2.0**-0.5 = 0.7071067811865476\<close>, the exact powers
  \<^verbatim>\<open>2.0**159\<close> and \<^verbatim>\<open>2.0**-159\<close>, \<^verbatim>\<open>x**0.0 = 1.0\<close>, \<^verbatim>\<open>gamma(1.5) = 0.886226925452758\<close> (the
  double nearest to half the square root of pi), \<^verbatim>\<open>gamma(160.0)\<close> as the double nearest to
  159! (about \<^verbatim>\<open>2.9467e282\<close>; its last digits decide nothing below) and
  \<^verbatim>\<open>factorial(0) = 1.0\<close>. Elsewhere the table holds NaN as a placeholder.
\<close>

definition scipy_doubles :: special_ieee where
  "scipy_doubles =
     \<lparr>pow_d = (\<lambda>x a.
        if feq a (Finite 0 0) then Finite 1 0
        else if feq x (Finite 2 0) \<and> feq a (Finite 1 (- 1)) then Finite 6369051672525773 (- 52)
        else if feq x (Finite 2 0) \<and> feq a (Finite (- 1) (- 1)) then Finite 6369051672525773 (- 53)
        else if feq x (Finite 2 0) \<and> feq a (Finite 159 0) then Finite 1 159
        else if feq x (Finite 2 0) \<and> feq a (Finite (- 159) 0) then Finite 1 (- 159)
        else NaN),
      gamma_d = (\<lambda>x.
        if feq x (Finite 3 (- 1)) then Finite 7982422502469483 (- 53)
        else if feq x (Finite 160 0) then Finite 5711630443246155 886
        else NaN),
      kvp_d = (\<lambda>v z n. NaN),
      binom_d = (\<lambda>n k. NaN),
      poch_d = (\<lambda>z m. NaN),
      factorial_d = (\<lambda>x. if feq x (Finite 0 0) then Finite 1 0 else NaN),
      diff_singular_d = (\<lambda>v n. NaN)\<rparr>"

section \<open>Properties\<close>

subsection \<open>Masks\<close>

lemma length_mask_assign [simp]: "length (mask_assign m xs v) = length xs"
  by (induction m xs v rule: mask_assign.induct) auto

lemma mask_assign_nth:
  "length m = length xs \<Longrightarrow> i < length xs \<Longrightarrow>
     mask_assign m xs v ! i = (if m ! i then v else xs ! i)"
proof (induction m xs v arbitrary: i rule: mask_assign.induct)
  case (1 m ms x xs v)
  then show ?case by (cases i) auto
qed auto

subsection \<open>Running the small methods\<close>

lemma nu_run: "1 < length (params s) \<Longrightarrow> nu s = (Inr (params s ! 1), s)"
  by (simp add: nu_def ret_def)

lemma compute_y_r2l2_run:
  assumes "1 < length (params s)" and "compute_r2l2 tau s = (Inr r2l2, s)"
  shows "compute_y_r2l2 tau s = (Inr (map (\<lambda>r. sqrt (2 * (params s ! 1) * r)) r2l2, r2l2), s)"
  using assms by (simp add: compute_y_r2l2_def bnd_def nu_run ret_def)

subsection \<open>The kernel value\<close>

text \<open>
  Claim C1. Whatever the order \<open>nu\<close> and the batch, the kernel value evaluator returns
  exactly 1 at every row whose scaled squared distance \<open>r2l2\<close> is 0: the assignment
  \<^verbatim>\<open>k[r2l2 == 0] = 1\<close> overrides the closed form there. (The call needs a hyperparameter
  vector that holds \<open>nu\<close>, that is at least two entries.)
\<close>

theorem compute_k_origin_rows:
  assumes "1 < length (params s)"
      and "compute_r2l2 tau s = (Inr r2l2, s)"
      and "i < length r2l2" and "r2l2 ! i = 0"
  shows "\<exists>k. compute_k lib tau s = (Inr k, s) \<and> length k = length r2l2 \<and> k ! i = 1"
  using assms
  by (simp add: compute_k_def bnd_def compute_y_r2l2_run nu_run ret_def mask_assign_nth)

theorem compute_k_origin_rows_witness:
  "\<exists>k. compute_k sample_special sample_tau sample_state = (Inr k, sample_state) \<and>
       length k = 3 \<and> k ! 0 = 1"
  using compute_k_origin_rows [of sample_state sample_tau "[0, 1, 4]" 0 sample_special]
  by (auto simp: sample_state_def sample_tau_def compute_r2l2_def ret_def numeral_3_eq_3)

subsection \<open>The outer derivative\<close>

lemma mask_add_map_select:
  "mask_add (map P ys) (map h ys) (map f (mask_select (map P ys) ys)) =
     map (\<lambda>y. if P y then h y + f y else h y) ys"
  by (induction ys) auto

lemma mask_assign_map:
  "mask_assign (map P ys) (map g ys) v = map (\<lambda>y. if P y then v else g y) ys"
  by (induction ys) auto

lemma leibniz_loop_map:
  "foldl (\<lambda>dk k. mask_add (map P ys) dk (map (f k) (mask_select (map P ys) ys))) (map h ys) ks =
     map (\<lambda>y. if P y then h y + sum_list (map (\<lambda>k. f k y) ks) else h y) ys"
proof (induction ks arbitrary: h)
  case Nil
  show ?case by simp
next
  case (Cons k ks)
  have "foldl (\<lambda>dk k. mask_add (map P ys) dk (map (f k) (mask_select (map P ys) ys))) (map h ys) (k # ks) =
        foldl (\<lambda>dk k. mask_add (map P ys) dk (map (f k) (mask_select (map P ys) ys)))
          (map (\<lambda>y. if P y then h y + f k y else h y) ys) ks"
    by (simp add: mask_add_map_select)
  also have "\<dots> = map (\<lambda>y. if P y then (if P y then h y + f k y else h y) + sum_list (map (\<lambda>k. f k y) ks)
                             else (if P y then h y + f k y else h y)) ys"
    by (rule Cons.IH)
  also have "\<dots> = map (\<lambda>y. if P y then h y + sum_list (map (\<lambda>k. f k y) (k # ks)) else h y) ys"
    by (simp add: add.assoc)
  finally show ?case .
qed

lemma sum_list_upt_Suc: "sum_list (map g [0..<n + 1]) = (\<Sum>k = 0..n. g k)"
  by (simp add: interv_sum_list_conv_sum_set_nat atLeastLessThanSuc_atLeastAtMost del: upt_Suc)

lemma dk_loop:
  "foldl (\<lambda>dk k. mask_add (map (\<lambda>yi. yi \<noteq> 0) y) dk
            (map (f k) (mask_select (map (\<lambda>yi. yi \<noteq> 0) y) y)))
     (replicate (length y) 0) [0..<Suc n] =
   map (\<lambda>yi. if yi \<noteq> 0 then (\<Sum>k = 0..n. f k yi) else 0) (y :: real list)"
proof -
  have rep: "replicate (length y) (0::real) = map (\<lambda>_. 0) y"
    by (simp add: map_replicate_const)
  have sl: "sum_list (map g [0..<Suc n]) = (\<Sum>k = 0..n. g k)" for g :: "nat \<Rightarrow> real"
    using sum_list_upt_Suc [of g n] by simp
  show ?thesis
    unfolding rep leibniz_loop_map sl by simp
qed

lemma zero_rows:
  "mask_assign (map (Not \<circ> (\<lambda>yi. yi \<noteq> 0)) y) (map g y) c =
     map (\<lambda>yi. if yi \<noteq> 0 then g yi else c) (y :: real list)"
  by (induction y) auto

lemma compute_dk_dy_run:
  assumes "1 < length (params s)" and "v = params s ! 1"
  shows "compute_dk_dy lib y n s =
     (Inr (map (\<lambda>yi. (if yi \<noteq> 0 then (\<Sum>k = 0..n. leibniz_term lib v n k yi)
                       else origin_value lib v n) *
                      (float_pow 2 (1 - v) / gamma lib v)) y),
      if real n \<ge> 2 * v
      then s\<lparr>warned := warned s @ [RuntimeWarning ''n >= 2*nu can yield inaccurate results.'']\<rparr>
      else s)"
proof -
  have nu: "nu s = (Inr v, s)"
    using assms by (simp add: nu_run)
  show ?thesis
    by (simp add: compute_dk_dy_def bnd_def nu Let_def dk_loop zero_rows ret_def warn_def
        origin_value_def del: upt_Suc)
qed

lemma float_pow_pos: "0 < x \<Longrightarrow> float_pow x a = x powr a"
proof (cases "0 \<le> a \<and> of_int \<lfloor>a\<rfloor> = a")
  case True
  assume x: "0 < x"
  from True have fl: "of_int \<lfloor>a\<rfloor> = a" and nn: "0 \<le> a" by blast+
  have "0 \<le> \<lfloor>a\<rfloor>" using nn by simp
  then have "real (nat \<lfloor>a\<rfloor>) = of_int \<lfloor>a\<rfloor>" by (rule of_nat_nat)
  with fl have a: "a = real (nat \<lfloor>a\<rfloor>)" by (simp only:)
  have "x powr a = x powr real (nat \<lfloor>a\<rfloor>)" using a by simp
  also have "\<dots> = x ^ nat \<lfloor>a\<rfloor>" using x by (rule powr_realpow)
  finally show ?thesis using True by (simp add: float_pow_def)
next
  case False
  then show ?thesis by (auto simp: float_pow_def)
qed

lemma float_pow_nat: "float_pow x (real k) = x ^ k"
  by (simp add: float_pow_def)

lemma half_even: "even n \<Longrightarrow> real n / 2 = real (n div 2)"
  by (auto elim!: evenE)

lemma factorial_nat: "factorial (real k) = fact k"
  by (simp add: factorial_def)

lemma compute_k_run:
  assumes "1 < length (params s)" and "v = params s ! 1"
      and "compute_r2l2 tau s = (Inr r2l2, s)"
  shows "compute_k lib tau s =
     (Inr (map (\<lambda>r. if r = 0 then 1
                     else float_pow 2 (1 - v) / gamma lib v * float_pow (sqrt (2 * v * r)) v *
                          kv lib v (sqrt (2 * v * r))) r2l2), s)"
proof -
  have nu: "nu s = (Inr v, s)"
    using assms by (simp add: nu_run)
  have yr: "compute_y_r2l2 tau s = (Inr (map (\<lambda>r. sqrt (2 * v * r)) r2l2, r2l2), s)"
    using compute_y_r2l2_run [OF assms(1,3)] assms(2) by simp
  show ?thesis
    by (simp add: compute_k_def bnd_def yr nu ret_def o_def mask_assign_map)
qed

lemma sample_state_nu:
  "1 < length (params sample_state)" "3 / 2 = params sample_state ! 1"
  by (simp_all add: sample_state_def)

text \<open>
  Claim C2. For every order \<open>n\<close> and every row with \<open>y \<noteq> 0\<close>, the outer-derivative
  evaluator returns the generalized Leibniz sum: the sum over \<open>k = 0, \<dots>, n\<close> of
  \<^verbatim>\<open>binom(n, k) * poch(1 - k + nu, k) * y^(nu - k) * K_nu^(n - k)(y)\<close>, scaled by
  \<^verbatim>\<open>2^(1 - nu) / Gamma(nu)\<close>; \<open>kvp lib v y j\<close> is the library's \<open>j\<close>-th derivative of the
  Bessel function \<^verbatim>\<open>K_nu\<close> at \<open>y\<close>.
\<close>

theorem compute_dk_dy_leibniz:
  assumes "1 < length (params s)" and "v = params s ! 1"
      and "i < length y" and "y ! i \<noteq> 0"
  shows "\<exists>dk. fst (compute_dk_dy lib y n s) = Inr dk \<and> length dk = length y \<and>
           dk ! i = (\<Sum>k = 0..n. binom n k * poch (1 - real k + v) k *
                        float_pow (y ! i) (v - real k) * kvp lib v (y ! i) (n - k)) *
                    (float_pow 2 (1 - v) / gamma lib v)"
  using assms by (simp add: compute_dk_dy_run [where v = v] leibniz_term_def)

theorem compute_dk_dy_leibniz_witness:
  "\<exists>dk. fst (compute_dk_dy sample_special [0, 1, 2] 1 sample_state) = Inr dk \<and> length dk = 3 \<and>
     dk ! 1 = (\<Sum>k = 0..1. binom 1 k * poch (1 - real k + 3 / 2) k *
                  float_pow ([0, 1, 2] ! 1) (3 / 2 - real k) *
                  kvp sample_special (3 / 2) ([0, 1, 2] ! 1) (1 - k)) *
              (float_pow 2 (1 - 3 / 2) / gamma sample_special (3 / 2))"
  using compute_dk_dy_leibniz [OF sample_state_nu, of 1 "[0, 1, 2]" sample_special 1]
  by (auto simp: numeral_3_eq_3)

text \<open>
  Claim C4. For every order \<open>n < 2 nu\<close>, at every row with \<open>y = 0\<close> the outer-derivative
  evaluator returns 0 when \<open>n\<close> is odd, and for an even \<open>n\<close> with \<open>m = n / 2\<close> it returns
  \<^verbatim>\<open>(-1)^m * 2^(nu - 1 - n) * Gamma(nu - m) * n! / m!\<close> scaled by
  \<^verbatim>\<open>2^(1 - nu) / Gamma(nu)\<close>.
\<close>

theorem compute_dk_dy_origin_closed_form:
  assumes "1 < length (params s)" and "v = params s ! 1"
      and "real n < 2 * v" and "i < length y" and "y ! i = 0"
  shows "\<exists>dk. fst (compute_dk_dy lib y n s) = Inr dk \<and> length dk = length y \<and>
           dk ! i = (if odd n then 0
                     else (- 1) ^ (n div 2) * 2 powr (v - 1 - real n) * gamma lib (v - real (n div 2)) *
                          fact n / fact (n div 2) * (2 powr (1 - v) / gamma lib v))"
proof (cases "odd n")
  case True
  then have "n mod 2 = 1" by (simp add: odd_iff_mod_2_eq_one)
  with True assms show ?thesis
    by (simp add: compute_dk_dy_run [where v = v] origin_value_def)
next
  case False
  then have e: "even n" by simp
  then have m: "n mod 2 \<noteq> 1" by (simp add: even_iff_mod_2_eq_zero)
  show ?thesis
    using assms False m
    by (simp add: compute_dk_dy_run [where v = v] origin_value_def half_even [OF e]
        float_pow_nat factorial_nat float_pow_pos)
qed

theorem compute_dk_dy_origin_closed_form_witness:
  "\<exists>dk. fst (compute_dk_dy sample_special [0, 1, 2] 2 sample_state) = Inr dk \<and> length dk = 3 \<and>
     dk ! 0 = - 1 * 2 powr (3 / 2 - 1 - 2) * gamma sample_special (3 / 2 - 1) * 2 / 1 *
              (2 powr (1 - 3 / 2) / gamma sample_special (3 / 2))"
  using compute_dk_dy_origin_closed_form [OF sample_state_nu, of 2 0 "[0, 1, 2]" sample_special]
  by (auto simp: numeral_3_eq_3)

text \<open>
  Claim C5. A call of the outer-derivative evaluator emits the warning exactly when
  \<open>n \<ge> 2 nu\<close>: the warnings after the call are those before it, followed by the
  \<^verbatim>\<open>RuntimeWarning\<close> if \<open>2 nu \<le> n\<close> and by nothing otherwise. The call returns a result
  in both cases, and for \<open>n \<ge> 2 nu\<close> the rows with \<open>y = 0\<close> hold what the
  arbitrary-precision differentiation of \<^verbatim>\<open>x^nu * K_nu(x)\<close> at 0 from the positive side
  returned, scaled by \<^verbatim>\<open>2^(1 - nu) / Gamma(nu)\<close>.
\<close>

theorem compute_dk_dy_warning:
  assumes "1 < length (params s)" and "v = params s ! 1"
  shows "warned (snd (compute_dk_dy lib y n s)) =
           (if 2 * v \<le> real n
            then warned s @ [RuntimeWarning ''n >= 2*nu can yield inaccurate results.'']
            else warned s) \<and>
         (\<exists>dk. fst (compute_dk_dy lib y n s) = Inr dk \<and> length dk = length y \<and>
            (2 * v \<le> real n \<longrightarrow>
               (\<forall>i < length y. y ! i = 0 \<longrightarrow>
                  dk ! i = diff_singular lib (\<lambda>x. float_pow x v * besselk lib v x) 0 n *
                           (float_pow 2 (1 - v) / gamma lib v))))"
  using assms by (simp add: compute_dk_dy_run [where v = v] origin_value_def)

theorem compute_dk_dy_warning_witness:
  "warned (snd (compute_dk_dy sample_special [0, 1, 2] 3 sample_state)) =
     [RuntimeWarning ''n >= 2*nu can yield inaccurate results.''] \<and>
   (\<exists>dk. fst (compute_dk_dy sample_special [0, 1, 2] 3 sample_state) = Inr dk \<and> length dk = 3 \<and>
      dk ! 0 = 0)"
proof -
  have w: "warned sample_state = []"
    by (simp add: sample_state_def)
  have d: "diff_singular sample_special f x n = 0" for f x n
    by (simp add: sample_special_def)
  show ?thesis
    using compute_dk_dy_warning [OF sample_state_nu, of sample_special "[0, 1, 2]" 3]
    by (auto simp: w d)
qed

text \<open>
  Claim C9, as it holds. In exact arithmetic, for \<open>nu > 0\<close> the outer-derivative evaluator
  at order \<open>n = 0\<close> returns the kernel value evaluator's values:
  \<^verbatim>\<open>2^(1 - nu) / Gamma(nu) * y^nu * K_nu(y)\<close> at the rows with \<open>y \<noteq> 0\<close> and 1 at the rows
  with \<open>y = 0\<close>, where the closed form \<^verbatim>\<open>Gamma(nu) * 2^(nu - 1)\<close> is cancelled by the scale
  factor. In particular, on the radial arguments \<open>y\<close> of a batch \<open>tau\<close> it returns what
  \<open>compute_k\<close> returns on \<open>tau\<close>. Two facts about the library are used: \<open>Gamma(nu)\<close> is
  not zero, and the derivative of order 0 that \<^verbatim>\<open>kvp\<close> returns is \<^verbatim>\<open>kv\<close> itself. The
  cancellation is one of real numbers: on doubles the closed form and the scale factor are
  each rounded, and the value at a row with \<open>y = 0\<close> is 1 only up to that rounding (see
  the evaluation on doubles below), while \<^verbatim>\<open>_compute_k\<close> writes the double \<^verbatim>\<open>1.0\<close>.
\<close>

theorem compute_dk_dy_order_zero:
  assumes "1 < length (params s)" and "v = params s ! 1" and "0 < v"
      and "gamma lib v \<noteq> 0" and "\<forall>z. kvp lib v z 0 = kv lib v z"
  shows "fst (compute_dk_dy lib y 0 s) =
           Inr (map (\<lambda>yi. if yi = 0 then 1
                          else float_pow 2 (1 - v) / gamma lib v * float_pow yi v * kv lib v yi) y) \<and>
         (compute_y tau s = (Inr y, s) \<longrightarrow>
            fst (compute_dk_dy lib y 0 s) = fst (compute_k lib tau s))"
proof -
  define c where "c = float_pow 2 (1 - v) / gamma lib v"
  let ?f = "\<lambda>yi. if yi = 0 then 1 else c * float_pow yi v * kv lib v yi"
  have "2 powr (v - 1) * 2 powr (1 - v) = (2::real) powr 0"
    by (simp only: powr_add [symmetric]) simp
  then have cancel: "2 powr (v - 1) * gamma lib v * (2 powr (1 - v) / gamma lib v) = 1"
    using assms(4) by simp
  have origin: "origin_value lib v 0 * c = 1"
    using assms(3) cancel
    by (simp add: c_def origin_value_def float_pow_pos factorial_def float_pow_def [of "- 1" 0])
  have lt: "leibniz_term lib v 0 0 yi * c = c * float_pow yi v * kv lib v yi" for yi
    using assms(5) by (simp add: leibniz_term_def binom_def poch_def)
  have pt: "(if yi \<noteq> 0 then (\<Sum>k = 0..0. leibniz_term lib v 0 k yi) else origin_value lib v 0) * c =
            ?f yi" for yi
    using origin lt [of yi] by (cases "yi = 0") simp_all
  have "compute_dk_dy lib y 0 s =
          (Inr (map (\<lambda>yi. (if yi \<noteq> 0 then (\<Sum>k = 0..0. leibniz_term lib v 0 k yi)
                            else origin_value lib v 0) * c) y), s)"
    using assms(3) unfolding c_def
    by (simp add: compute_dk_dy_run [OF assms(1,2)])
  then have dk: "compute_dk_dy lib y 0 s = (Inr (map ?f y), s)"
    by (simp only: pt)
  have "fst (compute_dk_dy lib y 0 s) = fst (compute_k lib tau s)"
    if y: "compute_y tau s = (Inr y, s)"
  proof -
    obtain r2l2 where r: "compute_r2l2 tau s = (Inr r2l2, s)"
      by (simp add: compute_r2l2_def ret_def)
    have yr: "compute_y_r2l2 tau s = (Inr (map (\<lambda>r. sqrt (2 * v * r)) r2l2, r2l2), s)"
      using compute_y_r2l2_run [OF assms(1) r] assms(2) by simp
    with y have y_eq: "y = map (\<lambda>r. sqrt (2 * v * r)) r2l2"
      by (simp add: compute_y_def bnd_def ret_def)
    have z: "sqrt (2 * v * r) = 0 \<longleftrightarrow> r = 0" for r
      using assms(3) by simp
    have "map ?f y = map (\<lambda>r. if r = 0 then 1
                     else c * float_pow (sqrt (2 * v * r)) v * kv lib v (sqrt (2 * v * r))) r2l2"
      unfolding y_eq by (simp add: o_def z del: real_sqrt_eq_zero_cancel_iff)
    moreover have "compute_k lib tau s = (Inr (map (\<lambda>r. if r = 0 then 1
                     else c * float_pow (sqrt (2 * v * r)) v * kv lib v (sqrt (2 * v * r))) r2l2), s)"
      unfolding c_def by (rule compute_k_run [OF assms(1,2) r])
    ultimately have "compute_k lib tau s = (Inr (map ?f y), s)"
      by (simp only:)
    with dk show ?thesis by simp
  qed
  with dk show ?thesis unfolding c_def by simp
qed

theorem compute_dk_dy_order_zero_witness:
  "fst (compute_dk_dy sample_special [0, sqrt 3, sqrt 12] 0 sample_state) =
     fst (compute_k sample_special sample_tau sample_state) \<and>
   fst (compute_dk_dy sample_special [0, sqrt 3, sqrt 12] 0 sample_state) =
     Inr [1, float_pow 2 (1 - 3 / 2) / gamma sample_special (3 / 2) * float_pow (sqrt 3) (3 / 2) *
              kv sample_special (3 / 2) (sqrt 3),
          float_pow 2 (1 - 3 / 2) / gamma sample_special (3 / 2) * float_pow (sqrt 12) (3 / 2) *
              kv sample_special (3 / 2) (sqrt 12)]"
proof -
  have y: "compute_y sample_tau sample_state = (Inr [0, sqrt 3, sqrt 12], sample_state)"
    by (simp add: compute_y_def compute_y_r2l2_def compute_r2l2_def bnd_def ret_def nu_def
        sample_tau_def sample_state_def)
  have g: "gamma sample_special (3 / 2) \<noteq> 0"
    by (simp add: sample_special_def)
  have k: "\<forall>z. kvp sample_special (3 / 2) z 0 = kv sample_special (3 / 2) z"
    by (simp add: sample_special_def)
  have p: "(0::real) < 3 / 2" by simp
  note oz = compute_dk_dy_order_zero
      [OF sample_state_nu p g k, of "[0, sqrt 3, sqrt 12]" sample_tau]
  show ?thesis
  proof (intro conjI)
    show "fst (compute_dk_dy sample_special [0, sqrt 3, sqrt 12] 0 sample_state) =
            fst (compute_k sample_special sample_tau sample_state)"
      using oz y by blast
    show "fst (compute_dk_dy sample_special [0, sqrt 3, sqrt 12] 0 sample_state) =
     Inr [1, float_pow 2 (1 - 3 / 2) / gamma sample_special (3 / 2) * float_pow (sqrt 3) (3 / 2) *
              kv sample_special (3 / 2) (sqrt 3),
          float_pow 2 (1 - 3 / 2) / gamma sample_special (3 / 2) * float_pow (sqrt 12) (3 / 2) *
              kv sample_special (3 / 2) (sqrt 12)]"
      using conjunct1 [OF oz] by simp
  qed
qed

text \<open>
  On doubles the value at a row with \<open>y = 0\<close> is not exactly 1. For \<^verbatim>\<open>nu = 1.5\<close>, \<^verbatim>\<open>n = 0\<close>
  and \<^verbatim>\<open>y = [0.0]\<close> the code computes
  \<^verbatim>\<open>(-1.0)**0.0 * 2.0**0.5 * gamma(1.5) * factorial(0) / factorial(0.0)\<close>, the double
  \<^verbatim>\<open>1.2533141373155003\<close>, and multiplies it by \<^verbatim>\<open>2.0**(-0.5) / gamma(1.5)\<close>, the double
  \<^verbatim>\<open>0.7978845608028654\<close>: the product rounds to \<^verbatim>\<open>1.0000000000000002\<close>, the double after
  \<^verbatim>\<open>1.0\<close>, where \<^verbatim>\<open>_compute_k\<close> returns \<^verbatim>\<open>1.0\<close>.
\<close>

theorem order_zero_origin_on_doubles:
  "fmul (pow_d scipy_doubles (Finite 2 0) (Finite 1 (- 1))) (gamma_d scipy_doubles (Finite 3 (- 1))) =
     Finite 5644425081792262 (- 52) \<and>
   fdiv (pow_d scipy_doubles (Finite 2 0) (Finite (- 1) (- 1))) (gamma_d scipy_doubles (Finite 3 (- 1))) =
     Finite 7186705221432913 (- 53) \<and>
   compute_dk_dy_ieee scipy_doubles (Finite 3 (- 1)) [Finite 0 0] 0 =
     [Finite 4503599627370497 (- 52)] \<and>
   \<not> feq (Finite 4503599627370497 (- 52)) (Finite 1 0)"
  by code_simp

subsection \<open>The derivative of the anisotropic distance\<close>

lemma float_pow_two: "float_pow x 2 = x\<^sup>2"
  using float_pow_nat [of x 2] by simp

lemma length_unique: "length (remdups (sort b)) = card (set b)"
  by (simp add: length_remdups_card_conv)

lemma dT_zero:
  "3 \<le> length b \<or> 1 < card (set b) \<Longrightarrow>
     compute_dT_dtau tau b s = (Inr (replicate (length (rows tau)) 0), s)"
  by (auto simp: compute_dT_dtau_def length_unique ret_def Let_def simp del: remdups.simps)

lemma dT_order1:
  "d < ncols tau \<Longrightarrow> 2 + d < length (params s) \<Longrightarrow>
     compute_dT_dtau tau [d] s =
       (Inr (map (\<lambda>row. 2 * row ! d / (params s ! (2 + d))\<^sup>2) (rows tau)), s)"
  by (simp add: compute_dT_dtau_def ret_def float_pow_two)

lemma dT_order2:
  "2 + d < length (params s) \<Longrightarrow>
     compute_dT_dtau tau [d, d] s =
       (Inr (replicate (length (rows tau)) (2 / (params s ! (2 + d))\<^sup>2)), s)"
  by (simp add: compute_dT_dtau_def ret_def float_pow_two map_replicate)

lemma sample_tau_rows: "rows sample_tau = [[0], [1], [2]]" "ncols sample_tau = 1"
  by (simp_all add: sample_tau_def)

text \<open>
  Claim C6. The primitive \<^verbatim>\<open>_compute_dT_dtau\<close> returns zeros for a block of order 3 or
  more and for a block that names more than one dimension; for the block \<open>[d]\<close> it
  returns \<^verbatim>\<open>2 * tau_d / l_d^2\<close> at each row, and for the block \<open>[d, d]\<close> the constant
  \<^verbatim>\<open>2 / l_d^2\<close> at every row, whatever \<open>tau\<close> holds. The length scale \<open>l\<^sub>d\<close> is entry
  \<open>2 + d\<close> of the hyperparameter vector; the two last cases need it to be there (and the
  first of them needs the column \<open>d\<close> of \<open>tau\<close>), where Python would raise \<^verbatim>\<open>IndexError\<close>
  otherwise.
\<close>

theorem compute_dT_dtau_cases:
  "(3 \<le> length b \<or> 1 < card (set b) \<longrightarrow>
      compute_dT_dtau tau b s = (Inr (replicate (length (rows tau)) 0), s)) \<and>
   (d < ncols tau \<and> 2 + d < length (params s) \<longrightarrow>
      compute_dT_dtau tau [d] s =
        (Inr (map (\<lambda>row. 2 * row ! d / (params s ! (2 + d))\<^sup>2) (rows tau)), s)) \<and>
   (2 + d < length (params s) \<longrightarrow>
      compute_dT_dtau tau [d, d] s =
        (Inr (replicate (length (rows tau)) (2 / (params s ! (2 + d))\<^sup>2)), s))"
  using dT_zero [of b tau s] dT_order1 [of d tau s] dT_order2 [of d s tau] by blast

theorem compute_dT_dtau_cases_witness:
  "compute_dT_dtau sample_tau [0, 0, 0] sample_state = (Inr [0, 0, 0], sample_state) \<and>
   compute_dT_dtau sample_tau [0] sample_state = (Inr [0, 2, 4], sample_state) \<and>
   compute_dT_dtau sample_tau [0, 0] sample_state = (Inr [2, 2, 2], sample_state)"
proof -
  have p: "params sample_state = [1, 3 / 2, 1]"
    by (simp add: sample_state_def)
  show ?thesis
    using compute_dT_dtau_cases [of "[0, 0, 0]" sample_tau sample_state 0]
    by (simp add: p sample_tau_rows numeral_3_eq_3)
qed

subsection \<open>The inner derivative\<close>

text \<open>
  The enumerator modelled from the spec returns as many partitions as the spec asks for,
  the Bell numbers 1, 1, 2, 5, 15 for multi-indices of length 0 to 4.
\<close>

lemma generate_set_partitions_bell:
  "map (\<lambda>n. length (generate_set_partitions [0..<n])) [0, 1, 2, 3, 4] = [1, 1, 2, 5, 15]"
  by code_simp

lemma generate_set_partitions_two:
  "generate_set_partitions [a, b] = [[[a], [b]], [[a, b]]]"
  by simp

lemma mask_select_map: "mask_select m (map f xs) = map f (mask_select m xs)"
  by (induction m xs rule: mask_select.induct) auto

lemma imul_map: "imul (map g zs) (map h zs) s = (Inr (map (\<lambda>z. g z * h z) zs), s)"
  by (simp add: imul_def ret_def zip_map_map zip_same_conv_map)

lemma unique_nonempty: "b \<noteq> [] \<Longrightarrow> remdups (sort b) \<noteq> []"
proof
  assume "b \<noteq> []" and "remdups (sort b) = []"
  then have "set (remdups (sort b)) = {}" by (simp only: set_empty2 list.set)
  then have "set b = {}" by simp
  with \<open>b \<noteq> []\<close> show False by simp
qed

lemma hd_unique_in_set: "b \<noteq> [] \<Longrightarrow> hd (remdups (sort b)) \<in> set b"
proof -
  assume "b \<noteq> []"
  then have "remdups (sort b) \<noteq> []" by (rule unique_nonempty)
  then have "hd (remdups (sort b)) \<in> set (remdups (sort b))" by (rule hd_in_set)
  then show ?thesis by simp
qed

lemma dT_run:
  assumes "block_ok (ncols tau) (params s) b"
  shows "compute_dT_dtau tau b s = (Inr (map (dT_row (params s) b) (rows tau)), s)"
proof -
  from assms have ne: "b \<noteq> []" and
    ok: "\<And>d. d \<in> set b \<Longrightarrow> d < ncols tau \<and> 2 + d < length (params s)"
    by (auto simp: block_ok_def list_all_iff)
  have u: "remdups (sort b) \<noteq> []" using ne by (rule unique_nonempty)
  have h: "hd (remdups (sort b)) < ncols tau" "2 + hd (remdups (sort b)) < length (params s)"
    using ok [OF hd_unique_in_set [OF ne]] by simp_all
  have z: "replicate (length (rows tau)) (0::real) = map (\<lambda>row. 0) (rows tau)"
    by (simp add: map_replicate_const)
  show ?thesis
    unfolding compute_dT_dtau_def dT_row_def Let_def
    using u h by (simp add: ret_def z map_replicate del: remdups.simps sort_key_simps
        add: map_replicate_const [symmetric])
qed

lemma blocks_loop_run:
  assumes "rows tau = map snd zs"
      and "\<And>b. b \<in> set p \<Longrightarrow> block_ok (ncols tau) (params s) b"
  shows "blocks_loop tau p (map g zs) s =
           (Inr (map (\<lambda>z. g z * prod_list (map (\<lambda>b. dT_row (params s) b (snd z)) p)) zs), s)"
  using assms(2)
proof (induction p arbitrary: g)
  case Nil
  show ?case by (simp add: ret_def)
next
  case (Cons b p)
  have dT: "compute_dT_dtau tau b s = (Inr (map (\<lambda>z. dT_row (params s) b (snd z)) zs), s)"
    using dT_run [of tau s b] Cons.prems assms(1) by (simp add: o_def)
  have "blocks_loop tau (b # p) (map g zs) s =
          blocks_loop tau p (map (\<lambda>z. g z * dT_row (params s) b (snd z)) zs) s"
    by (simp add: bnd_def dT imul_map)
  also have "\<dots> = (Inr (map (\<lambda>z. g z * dT_row (params s) b (snd z) *
                    prod_list (map (\<lambda>b. dT_row (params s) b (snd z)) p)) zs), s)"
    by (rule Cons.IH) (use Cons.prems in auto)
  finally show ?case by (simp add: mult.assoc)
qed

lemma on_partition_run:
  assumes "1 < length (params s)" and "v = params s ! 1"
      and "rows tau = map snd zs"
      and "\<And>b. b \<in> set p \<Longrightarrow> block_ok (ncols tau) (params s) b"
  shows "compute_dy_dtau_on_partition tau p (map fst zs) s =
           (Inr (map (partition_term v (params s) p) zs), s)"
proof -
  have nu: "nu s = (Inr v, s)"
    using assms(1,2) by (simp add: nu_run)
  show ?thesis
    using blocks_loop_run [OF assms(3,4), where g = "\<lambda>z. partition_coeff v (length p) (fst z)"]
    by (simp add: compute_dy_dtau_on_partition_def bnd_def nu Let_def o_def partition_term_def)
qed

lemma partitions_loop_run:
  assumes "1 < length (params s)" and "v = params s ! 1"
      and "rows tau = map snd zs"
      and "\<And>p b. p \<in> set ps \<Longrightarrow> b \<in> set p \<Longrightarrow> block_ok (ncols tau) (params s) b"
  shows "partitions_loop tau (map fst zs) (map P zs) ps (map G zs) s =
           (Inr (map (\<lambda>z. if P z then G z + sum_list (map (\<lambda>p. partition_term v (params s) p z) ps)
                           else G z) zs), s)"
  using assms(4)
proof (induction ps arbitrary: G)
  case Nil
  show ?case by (simp add: ret_def)
next
  case (Cons p ps)
  let ?tau = "tau\<lparr>rows := mask_select (map P zs) (rows tau)\<rparr>"
  let ?zs = "mask_select (map P zs) zs"
  have sel: "select_rows (map P zs) tau s = (Inr ?tau, s)"
    using assms(3) by (simp add: select_rows_def ret_def)
  have rows': "rows ?tau = map snd ?zs"
    using assms(3) by (simp add: mask_select_map)
  have ok': "\<And>b. b \<in> set p \<Longrightarrow> block_ok (ncols ?tau) (params s) b"
    using Cons.prems by auto
  have part: "compute_dy_dtau_on_partition ?tau p (mask_select (map P zs) (map fst zs)) s =
                (Inr (map (partition_term v (params s) p) ?zs), s)"
    unfolding mask_select_map
    by (rule on_partition_run [OF assms(1,2) rows' ok'])
  have "partitions_loop tau (map fst zs) (map P zs) (p # ps) (map G zs) s =
          partitions_loop tau (map fst zs) (map P zs) ps
            (map (\<lambda>z. if P z then G z + partition_term v (params s) p z else G z) zs) s"
    by (simp add: bnd_def sel part mask_add_map_select)
  also have "\<dots> = (Inr (map (\<lambda>z. if P z
        then (if P z then G z + partition_term v (params s) p z else G z) +
             sum_list (map (\<lambda>p. partition_term v (params s) p z) ps)
        else (if P z then G z + partition_term v (params s) p z else G z)) zs), s)"
    by (rule Cons.IH) (use Cons.prems in auto)
  finally show ?case by (simp add: add.assoc cong: if_cong)
qed

lemma count_derivs_run:
  "\<forall>d \<in> set b. d < length derivs \<Longrightarrow>
     \<exists>derivs'. count_derivs derivs b s = (Inr derivs', s)"
  by (induction b arbitrary: derivs) (auto simp: ret_def)

lemma insert_each_blocks:
  "q \<in> set (insert_each x p) \<Longrightarrow> blk \<in> set q \<Longrightarrow>
     blk \<in> set p \<or> (\<exists>blk' \<in> set p. blk = x # blk')"
proof (induction p arbitrary: q)
  case Nil
  then show ?case by simp
next
  case (Cons a p)
  from Cons.prems(1) have "q = (x # a) # p \<or> (\<exists>q' \<in> set (insert_each x p). q = a # q')"
    by auto
  then show ?case
  proof
    assume "q = (x # a) # p"
    with Cons.prems(2) show ?thesis by auto
  next
    assume "\<exists>q' \<in> set (insert_each x p). q = a # q'"
    then obtain q' where q': "q' \<in> set (insert_each x p)" and q: "q = a # q'"
      by blast
    from Cons.prems(2) q have "blk = a \<or> blk \<in> set q'" by simp
    then show ?thesis
    proof
      assume "blk = a"
      then show ?thesis by simp
    next
      assume "blk \<in> set q'"
      from Cons.IH [OF q' this] show ?thesis by auto
    qed
  qed
qed

lemma generate_set_partitions_blocks:
  "p \<in> set (generate_set_partitions b) \<Longrightarrow> blk \<in> set p \<Longrightarrow> blk \<noteq> [] \<and> set blk \<subseteq> set b"
proof (induction b arbitrary: p blk)
  case Nil
  then show ?case by simp
next
  case (Cons x xs)
  from Cons.prems(1) obtain p' where p': "p' \<in> set (generate_set_partitions xs)"
    and p: "p = [x] # p' \<or> p \<in> set (insert_each x p')"
    by auto
  have ih: "c \<noteq> [] \<and> set c \<subseteq> set xs" if "c \<in> set p'" for c
    using Cons.IH [OF p' that] .
  from p have "blk = [x] \<or> blk \<in> set p' \<or> (\<exists>blk' \<in> set p'. blk = x # blk')"
  proof
    assume "p = [x] # p'"
    with Cons.prems(2) show ?thesis by auto
  next
    assume "p \<in> set (insert_each x p')"
    from insert_each_blocks [OF this Cons.prems(2)] show ?thesis by blast
  qed
  then consider "blk = [x]" | "blk \<in> set p'" | blk' where "blk' \<in> set p'" "blk = x # blk'"
    by blast
  then show ?case
  proof cases
    case 1
    then show ?thesis by simp
  next
    case 2
    with ih [of blk] show ?thesis by auto
  next
    case 3
    with ih [of blk'] show ?thesis by auto
  qed
qed

lemma compute_dy_dtau_run:
  assumes "1 < length (params s)" and "v = params s ! 1"
      and "length r2l2 = length (rows tau)"
      and "\<forall>d \<in> set b. d < ncols tau \<and> 2 + d < length (params s)"
  shows "\<exists>derivs. count_derivs (replicate (ncols tau) 0) b s = (Inr derivs, s) \<and>
           compute_dy_dtau lib tau b r2l2 s =
             (Inr (map (\<lambda>z. if fst z \<noteq> 0
                             then sum_list (map (\<lambda>p. partition_term v (params s) p z)
                                    (generate_set_partitions b))
                             else diff_singular_partial lib (\<lambda>args. fst (compute_y_wrapper args s))
                                    (replicate (ncols tau) 0) derivs)
                     (zip r2l2 (rows tau))), s)"
proof -
  define zs where "zs = zip r2l2 (rows tau)"
  have r: "r2l2 = map fst zs" and rw: "rows tau = map snd zs"
    using assms(3) by (simp_all add: zs_def)
  have ok: "block_ok (ncols tau) (params s) blk"
    if "p \<in> set (generate_set_partitions b)" and "blk \<in> set p" for p blk
    using generate_set_partitions_blocks [OF that] assms(4)
    by (auto simp: block_ok_def list_all_iff)
  have loop: "partitions_loop tau (map fst zs) (map (\<lambda>z. fst z \<noteq> 0) zs)
                (generate_set_partitions b) (map (\<lambda>z. 0) zs) s =
              (Inr (map (\<lambda>z. if fst z \<noteq> 0
                             then 0 + sum_list (map (\<lambda>p. partition_term v (params s) p z)
                                    (generate_set_partitions b))
                             else 0) zs), s)"
    by (rule partitions_loop_run [OF assms(1,2) rw ok])
  obtain derivs where d: "count_derivs (replicate (ncols tau) 0) b s = (Inr derivs, s)"
    using count_derivs_run [of b "replicate (ncols tau) 0" s] assms(4) by auto
  have nz: "map (\<lambda>r. r \<noteq> 0) (map fst zs) = map (\<lambda>z. fst z \<noteq> 0) zs"
    by simp
  have z0: "replicate (length (map fst zs)) (0::real) = map (\<lambda>z. 0) zs"
    by (simp add: map_replicate_const)
  have "compute_dy_dtau lib tau b (map fst zs) s =
          (Inr (map (\<lambda>z. if fst z \<noteq> 0
                          then sum_list (map (\<lambda>p. partition_term v (params s) p z)
                                 (generate_set_partitions b))
                          else diff_singular_partial lib (\<lambda>args. fst (compute_y_wrapper args s))
                                 (replicate (ncols tau) 0) derivs) zs), s)"
    unfolding compute_dy_dtau_def Let_def nz z0
    by (simp add: bnd_def loop d ret_def mask_assign_map o_def cong: if_cong)
  moreover have "map fst (zip r2l2 (rows tau)) = r2l2"
    using assms(3) by simp
  ultimately show ?thesis
    using d unfolding zs_def by auto
qed

lemma dT_at_row:
  assumes "block_ok (ncols tau) (params s) blk" and "i < length (rows tau)"
  shows "dT_at tau blk s i = dT_row (params s) blk (rows tau ! i)"
  using assms(2) by (simp add: dT_at_def dT_run [OF assms(1)])

lemma compute_dy_dtau_row:
  assumes "1 < length (params s)" and "v = params s ! 1"
      and "length r2l2 = length (rows tau)"
      and "\<forall>d \<in> set b. d < ncols tau \<and> 2 + d < length (params s)"
      and "i < length r2l2" and "r2l2 ! i \<noteq> 0"
  shows "\<exists>dy. compute_dy_dtau lib tau b r2l2 s = (Inr dy, s) \<and> length dy = length r2l2 \<and>
           dy ! i = (\<Sum>p\<leftarrow>generate_set_partitions b.
                       sqrt (2 * v) * poch (1 - real (length p) + 1 / 2) (length p) *
                       float_pow (r2l2 ! i) (- real (length p) + 1 / 2) *
                       (\<Prod>blk\<leftarrow>p. dT_at tau blk s i))"
proof -
  let ?F = "\<lambda>p. sqrt (2 * v) * poch (1 - real (length p) + 1 / 2) (length p) *
                 float_pow (r2l2 ! i) (- real (length p) + 1 / 2) *
                 (\<Prod>blk\<leftarrow>p. dT_at tau blk s i)"
  from compute_dy_dtau_run [OF assms(1-4)] obtain c where
    run: "compute_dy_dtau lib tau b r2l2 s =
            (Inr (map (\<lambda>z. if fst z \<noteq> 0
                            then sum_list (map (\<lambda>p. partition_term v (params s) p z)
                                   (generate_set_partitions b))
                            else c) (zip r2l2 (rows tau))), s)"
    by blast
  have i': "i < length (rows tau)"
    using assms(3,5) by simp
  have pt: "partition_term v (params s) p (r2l2 ! i, rows tau ! i) = ?F p"
    if p: "p \<in> set (generate_set_partitions b)" for p
  proof -
    have "dT_row (params s) blk (rows tau ! i) = dT_at tau blk s i" if "blk \<in> set p" for blk
    proof -
      have "block_ok (ncols tau) (params s) blk"
        using generate_set_partitions_blocks [OF p that] assms(4)
        by (auto simp: block_ok_def list_all_iff)
      then show ?thesis using i' by (simp add: dT_at_row)
    qed
    then have "map (\<lambda>blk. dT_row (params s) blk (rows tau ! i)) p = map (\<lambda>blk. dT_at tau blk s i) p"
      by simp
    then have "(\<Prod>blk\<leftarrow>p. dT_row (params s) blk (rows tau ! i)) = (\<Prod>blk\<leftarrow>p. dT_at tau blk s i)"
      by (simp only:)
    then show ?thesis
      by (simp add: partition_term_def partition_coeff_def)
  qed
  have "sum_list (map (\<lambda>p. partition_term v (params s) p (r2l2 ! i, rows tau ! i))
          (generate_set_partitions b)) = sum_list (map ?F (generate_set_partitions b))"
    using pt by (simp cong: map_cong)
  then show ?thesis
    using assms(3,5,6) by (simp add: run)
qed

lemma sample_dT_at:
  "dT_at sample_tau [0] sample_state (Suc 0) = 2" "dT_at sample_tau [0, 0] sample_state (Suc 0) = 2"
  by (simp_all add: dT_at_def compute_dT_dtau_def ret_def sample_tau_def sample_state_def
      float_pow_def)

text \<open>
  Claim C3. For every multi-index \<open>b\<close> and every row with \<open>r2l2 \<noteq> 0\<close>, the
  inner-derivative evaluator returns the sum, over the set partitions \<open>p\<close> of \<open>b\<close>, of
  \<^verbatim>\<open>sqrt(2 nu) * poch(1 - n_p + 0.5, n_p) * r2l2^(-n_p + 0.5)\<close> times the product over
  the blocks of \<open>p\<close> of the anisotropic-distance derivative for the block, where \<open>n\<^sub>p\<close>
  is the number of blocks of \<open>p\<close>. The call is one that raises no exception: \<open>r2l2\<close> has
  one entry per row of \<open>tau\<close>, and every dimension named in \<open>b\<close> is a column of \<open>tau\<close>
  with a length scale in the hyperparameter vector.
\<close>

theorem compute_dy_dtau_partition_sum:
  assumes "1 < length (params s)" and "v = params s ! 1"
      and "length r2l2 = length (rows tau)"
      and "\<forall>d \<in> set b. d < ncols tau \<and> 2 + d < length (params s)"
      and "i < length r2l2" and "r2l2 ! i \<noteq> 0"
  shows "\<exists>dy. compute_dy_dtau lib tau b r2l2 s = (Inr dy, s) \<and> length dy = length r2l2 \<and>
           dy ! i = (\<Sum>p\<leftarrow>generate_set_partitions b.
                       sqrt (2 * v) * poch (1 - real (length p) + 1 / 2) (length p) *
                       float_pow (r2l2 ! i) (- real (length p) + 1 / 2) *
                       (\<Prod>blk\<leftarrow>p. dT_at tau blk s i))"
  using assms by (rule compute_dy_dtau_row)

theorem compute_dy_dtau_partition_sum_witness:
  "\<exists>dy. compute_dy_dtau sample_special sample_tau [0, 0] [0, 1, 4] sample_state =
          (Inr dy, sample_state) \<and> length dy = 3 \<and> dy ! 1 = 0"
proof -
  have l: "length [0, 1, 4 :: real] = length (rows sample_tau)"
    by (simp add: sample_tau_rows)
  have d: "\<forall>d \<in> set [0 :: nat, 0]. d < ncols sample_tau \<and> 2 + d < length (params sample_state)"
    by (simp add: sample_tau_rows sample_state_def)
  have i: "1 < length [0, 1, 4 :: real]" "[0, 1, 4 :: real] ! 1 \<noteq> 0"
    by simp_all
  have p2: "poch (- (1 / 2)) (Suc (Suc 0)) = - (1 / 4)" "poch (1 / 2) (Suc 0) = 1 / 2"
    by (simp_all add: poch_def pochhammer_Suc)
  have fp: "float_pow 1 a = 1" for a
    by (simp add: float_pow_def)
  show ?thesis
    using compute_dy_dtau_partition_sum [OF sample_state_nu l d i, of sample_special]
    by (auto simp: sample_dT_at p2 fp numeral_3_eq_3)
qed

subsection \<open>The hyperparameters are never written\<close>

lemma keeps_ret: "keeps_params (ret x)"
  by (simp add: keeps_params_def ret_def)

lemma keeps_raise: "keeps_params (raise e)"
  by (simp add: keeps_params_def raise_def)

lemma keeps_warn: "keeps_params (warn w)"
  by (simp add: keeps_params_def warn_def)

lemma keeps_bnd: "keeps_params m \<Longrightarrow> (\<And>x. keeps_params (f x)) \<Longrightarrow> keeps_params (bnd m f)"
  by (auto simp: keeps_params_def bnd_def split: prod.splits sum.splits)
    (metis snd_conv)+

lemma keeps_nu: "keeps_params nu"
  by (simp add: keeps_params_def nu_def ret_def raise_def)

lemma keeps_compute_r2l2: "keeps_params (compute_r2l2 tau)"
  by (simp add: keeps_params_def compute_r2l2_def ret_def)

lemma keeps_compute_y_r2l2: "keeps_params (compute_y_r2l2 tau)"
  unfolding compute_y_r2l2_def
  by (intro keeps_bnd keeps_compute_r2l2 keeps_nu keeps_ret)

lemma keeps_compute_k: "keeps_params (compute_k lib tau)"
  unfolding compute_k_def Let_def split_def
  by (intro keeps_bnd keeps_compute_y_r2l2 keeps_nu keeps_ret)

lemma keeps_if: "keeps_params m \<Longrightarrow> keeps_params m' \<Longrightarrow> keeps_params (if c then m else m')"
  by simp

lemma keeps_compute_dk_dy: "keeps_params (compute_dk_dy lib y n)"
  unfolding compute_dk_dy_def Let_def
  by (intro keeps_bnd keeps_nu keeps_if keeps_warn keeps_ret)

lemma keeps_compute_dT_dtau: "keeps_params (compute_dT_dtau tau b)"
  by (simp add: keeps_params_def compute_dT_dtau_def ret_def raise_def Let_def)

lemma keeps_imul: "keeps_params (imul xs ys)"
  unfolding imul_def by (intro keeps_if keeps_ret keeps_raise)

lemma keeps_blocks_loop: "keeps_params (blocks_loop tau p dy)"
proof (induction p arbitrary: dy)
  case Nil
  show ?case by (simp add: keeps_ret)
next
  case (Cons b p)
  show ?case
    unfolding blocks_loop.simps
    by (intro keeps_bnd keeps_compute_dT_dtau keeps_imul Cons.IH)
qed

lemma keeps_on_partition: "keeps_params (compute_dy_dtau_on_partition tau p r2l2)"
  unfolding compute_dy_dtau_on_partition_def Let_def
  by (intro keeps_bnd keeps_nu keeps_blocks_loop)

lemma keeps_select_rows: "keeps_params (select_rows m tau)"
  unfolding select_rows_def by (intro keeps_if keeps_ret keeps_raise)

lemma keeps_partitions_loop: "keeps_params (partitions_loop tau r2l2 nz ps dy)"
proof (induction ps arbitrary: dy)
  case Nil
  show ?case by (simp add: keeps_ret)
next
  case (Cons p ps)
  show ?case
    unfolding partitions_loop.simps
    by (intro keeps_bnd keeps_select_rows keeps_on_partition Cons.IH)
qed

lemma keeps_count_derivs: "keeps_params (count_derivs derivs b)"
  by (induction b arbitrary: derivs) (simp_all add: keeps_ret keeps_raise)

lemma keeps_compute_dy_dtau: "keeps_params (compute_dy_dtau lib tau b r2l2)"
proof -
  have "keeps_params (\<lambda>s. ret (F s) s)" for F :: "state \<Rightarrow> real list"
    by (simp add: keeps_params_def ret_def)
  then show ?thesis
    unfolding compute_dy_dtau_def Let_def
    by (intro keeps_bnd keeps_partitions_loop keeps_count_derivs)
qed

text \<open>
  Claim C8. No operation of the engine modifies the hyperparameter vector: after a call
  of the kernel value, outer-derivative, inner-derivative, partition-term or
  distance-derivative evaluator \<^verbatim>\<open>self.params\<close> is what it was before, whether the call
  returns or raises; and the accessor \<^verbatim>\<open>nu\<close> leaves the whole state as it is and reads
  entry 1 of the vector (an \<^verbatim>\<open>IndexError\<close> when there is none).
\<close>

theorem params_unchanged:
  "params (snd (compute_k lib tau s)) = params s \<and>
   params (snd (compute_dk_dy lib y n s)) = params s \<and>
   params (snd (compute_dy_dtau lib tau b r2l2 s)) = params s \<and>
   params (snd (compute_dy_dtau_on_partition tau p r2l2 s)) = params s \<and>
   params (snd (compute_dT_dtau tau blk s)) = params s \<and>
   nu s = (if 1 < length (params s) then Inr (params s ! 1) else Inl IndexError, s)"
  using keeps_compute_k [of lib tau] keeps_compute_dk_dy [of lib y n]
    keeps_compute_dy_dtau [of lib tau b r2l2] keeps_on_partition [of tau p r2l2]
    keeps_compute_dT_dtau [of tau blk]
  by (simp add: keeps_params_def nu_def ret_def raise_def)

theorem params_unchanged_witness:
  "params (snd (compute_dk_dy sample_special [0, 1, 2] 3 sample_state)) = [1, 3 / 2, 1] \<and>
   nu sample_state = (Inr (3 / 2), sample_state)"
  using params_unchanged [of sample_special sample_tau sample_state "[0, 1, 2]" 3 "[]" "[]" "[]" "[]"]
  by (simp add: sample_state_def)

subsection \<open>The singular-point handling writes the singular rows only\<close>

text \<open>
  Claim C10. In both derivative evaluators the handling of the singular points writes
  the singular rows only. At a row with \<open>y \<noteq> 0\<close> the outer derivative is the Leibniz
  sum times the scale factor for every order \<open>n\<close>, also for \<open>n \<ge> 2 nu\<close> where the
  numerical fallback runs and the warning is emitted; at a row with \<open>r2l2 \<noteq> 0\<close> the inner
  derivative is the sum over the partitions. Neither depends on what the
  arbitrary-precision routines return in the same call: they are replaced by arbitrary
  functions \<open>B\<close>, \<open>D\<close> and \<open>DP\<close> here.
\<close>

theorem singular_rows_frame:
  assumes "1 < length (params s)" and "v = params s ! 1"
  shows "(\<forall>i < length y. y ! i \<noteq> 0 \<longrightarrow>
            (\<exists>dk. compute_dk_dy (lib\<lparr>besselk := B, diff_singular := D\<rparr>) y n s =
                    (Inr dk, if 2 * v \<le> real n
                             then s\<lparr>warned := warned s @
                                    [RuntimeWarning ''n >= 2*nu can yield inaccurate results.'']\<rparr>
                             else s) \<and>
                  dk ! i = (\<Sum>k = 0..n. binom n k * poch (1 - real k + v) k *
                              float_pow (y ! i) (v - real k) * kvp lib v (y ! i) (n - k)) *
                           (float_pow 2 (1 - v) / gamma lib v))) \<and>
         (length r2l2 = length (rows tau) \<and>
          (\<forall>d \<in> set b. d < ncols tau \<and> 2 + d < length (params s)) \<longrightarrow>
            (\<forall>i < length r2l2. r2l2 ! i \<noteq> 0 \<longrightarrow>
               (\<exists>dy. compute_dy_dtau (lib\<lparr>diff_singular_partial := DP\<rparr>) tau b r2l2 s = (Inr dy, s) \<and>
                     dy ! i = (\<Sum>p\<leftarrow>generate_set_partitions b.
                                 sqrt (2 * v) * poch (1 - real (length p) + 1 / 2) (length p) *
                                 float_pow (r2l2 ! i) (- real (length p) + 1 / 2) *
                                 (\<Prod>blk\<leftarrow>p. dT_at tau blk s i)))))"
proof (intro conjI allI impI)
  fix i
  assume "i < length y" and "y ! i \<noteq> 0"
  then show "\<exists>dk. compute_dk_dy (lib\<lparr>besselk := B, diff_singular := D\<rparr>) y n s =
                    (Inr dk, if 2 * v \<le> real n
                             then s\<lparr>warned := warned s @
                                    [RuntimeWarning ''n >= 2*nu can yield inaccurate results.'']\<rparr>
                             else s) \<and>
                  dk ! i = (\<Sum>k = 0..n. binom n k * poch (1 - real k + v) k *
                              float_pow (y ! i) (v - real k) * kvp lib v (y ! i) (n - k)) *
                           (float_pow 2 (1 - v) / gamma lib v)"
    by (simp add: compute_dk_dy_run [OF assms] leibniz_term_def)
next
  fix i
  assume "length r2l2 = length (rows tau) \<and>
          (\<forall>d \<in> set b. d < ncols tau \<and> 2 + d < length (params s))"
    and "i < length r2l2" and "r2l2 ! i \<noteq> 0"
  then show "\<exists>dy. compute_dy_dtau (lib\<lparr>diff_singular_partial := DP\<rparr>) tau b r2l2 s = (Inr dy, s) \<and>
                     dy ! i = (\<Sum>p\<leftarrow>generate_set_partitions b.
                                 sqrt (2 * v) * poch (1 - real (length p) + 1 / 2) (length p) *
                                 float_pow (r2l2 ! i) (- real (length p) + 1 / 2) *
                                 (\<Prod>blk\<leftarrow>p. dT_at tau blk s i))"
    using compute_dy_dtau_row [OF assms, of r2l2 tau b i "lib\<lparr>diff_singular_partial := DP\<rparr>"]
    by blast
qed

theorem singular_rows_frame_witness:
  "(\<exists>dk. fst (compute_dk_dy (sample_special\<lparr>besselk := (\<lambda>v x. 7), diff_singular := (\<lambda>f x n. 7)\<rparr>)
            [0, 1, 2] 3 sample_state) = Inr dk \<and>
      dk ! 1 = (\<Sum>k = 0..3. binom 3 k * poch (1 - real k + 3 / 2) k *
                  float_pow ([0, 1, 2] ! 1) (3 / 2 - real k) *
                  kvp sample_special (3 / 2) ([0, 1, 2] ! 1) (3 - k)) *
               (float_pow 2 (1 - 3 / 2) / gamma sample_special (3 / 2))) \<and>
   (\<exists>dy. compute_dy_dtau (sample_special\<lparr>diff_singular_partial := (\<lambda>f x ns. 7)\<rparr>)
            sample_tau [0, 0] [0, 1, 4] sample_state = (Inr dy, sample_state) \<and> dy ! 1 = 0)"
proof -
  have d: "length [0, 1, 4 :: real] = length (rows sample_tau) \<and>
      (\<forall>d \<in> set [0 :: nat, 0]. d < ncols sample_tau \<and> 2 + d < length (params sample_state))"
    by (simp add: sample_tau_rows sample_state_def)
  have p2: "poch (- (1 / 2)) (Suc (Suc 0)) = - (1 / 4)" "poch (1 / 2) (Suc 0) = 1 / 2"
    by (simp_all add: poch_def pochhammer_Suc)
  have fp: "float_pow 1 a = 1" for a
    by (simp add: float_pow_def)
  note fr = singular_rows_frame [OF sample_state_nu, where y = "[0, 1, 2]" and lib = sample_special
      and B = "\<lambda>v x. 7" and D = "\<lambda>f x n. 7" and n = 3 and ?r2l2.0 = "[0, 1, 4]"
      and tau = sample_tau and b = "[0, 0]" and DP = "\<lambda>f x ns. 7"]
  have outer: "\<exists>dk. fst (compute_dk_dy (sample_special\<lparr>besselk := (\<lambda>v x. 7), diff_singular := (\<lambda>f x n. 7)\<rparr>)
            [0, 1, 2] 3 sample_state) = Inr dk \<and>
      dk ! 1 = (\<Sum>k = 0..3. binom 3 k * poch (1 - real k + 3 / 2) k *
                  float_pow ([0, 1, 2] ! 1) (3 / 2 - real k) *
                  kvp sample_special (3 / 2) ([0, 1, 2] ! 1) (3 - k)) *
               (float_pow 2 (1 - 3 / 2) / gamma sample_special (3 / 2))"
    using conjunct1 [OF fr, rule_format, of 1] by auto
  have inner: "\<exists>dy. compute_dy_dtau (sample_special\<lparr>diff_singular_partial := (\<lambda>f x ns. 7)\<rparr>)
            sample_tau [0, 0] [0, 1, 4] sample_state = (Inr dy, sample_state) \<and> dy ! 1 = 0"
    using conjunct2 [OF fr, rule_format, OF d, of 1]
    by (auto simp: sample_dT_at p2 fp)
  from outer inner show ?thesis by blast
qed

subsection \<open>What the singular rows hold\<close>

text \<open>
  The orders that \<^verbatim>\<open>_compute_dy_dtau\<close> hands to \<^verbatim>\<open>mpmath.diff\<close>: the loop over \<open>b\<close> counts, for
  each dimension, its occurrences in \<open>b\<close>.
\<close>

lemma count_derivs_counts:
  "\<forall>d \<in> set b. d < length derivs \<Longrightarrow>
     count_derivs derivs b s =
       (Inr (map (\<lambda>j. derivs ! j + count_list b j) [0..<length derivs]), s)"
proof (induction b arbitrary: derivs)
  case Nil
  show ?case by (simp add: ret_def map_nth)
next
  case (Cons d b)
  from Cons.prems have d: "d < length derivs"
    and b: "\<forall>x \<in> set b. x < length (derivs[d := derivs ! d + 1])"
    by simp_all
  have "map (\<lambda>j. derivs[d := derivs ! d + 1] ! j + count_list b j) [0..<length derivs] =
        map (\<lambda>j. derivs ! j + count_list (d # b) j) [0..<length derivs]"
    using d by (auto simp: nth_list_update)
  then show ?case
    using d Cons.IH [OF b] by simp
qed

lemma count_derivs_zeros:
  "\<forall>d \<in> set b. d < N \<Longrightarrow>
     count_derivs (replicate N 0) b s = (Inr (map (count_list b) [0..<N]), s)"
  using count_derivs_counts [of b "replicate N 0" s] by (simp cong: map_cong)

text \<open>
  Claim C7, as it holds. Each singular row is resolved by a dedicated branch, and in
  exact arithmetic the value it holds is the following. The kernel value evaluator, at a
  row with \<open>r2l2 = 0\<close>: 1. The outer-derivative evaluator, at a row with \<open>y = 0\<close>: for
  \<open>n < 2 nu\<close> the closed form (0 for odd \<open>n\<close>), otherwise the derivative of order \<open>n\<close> that
  \<^verbatim>\<open>mpmath.diff\<close> returns for \<^verbatim>\<open>x**nu * besselk(nu, x)\<close> at 0, in both cases times the scale
  factor \<^verbatim>\<open>2^(1 - nu) / Gamma(nu)\<close>. The inner-derivative evaluator, at a row with
  \<open>r2l2 = 0\<close>, in a call that raises no \<^verbatim>\<open>IndexError\<close>: the derivative that \<^verbatim>\<open>mpmath.diff\<close>
  returns for \<open>y(tau)\<close> (the method \<^verbatim>\<open>_compute_y_wrapper\<close>) at the origin \<^verbatim>\<open>zeros(N)\<close>, with
  the per-dimension orders counted from \<open>b\<close>; the code passes \<^verbatim>\<open>singular=True\<close> and
  \<^verbatim>\<open>direction=1\<close>, which \<open>diff_singular_partial\<close> stands for. That the doubles returned at
  these rows are never NaN does not hold: see the evaluation on doubles below.
\<close>

theorem singular_rows_branches:
  assumes "1 < length (params s)" and "v = params s ! 1"
  shows "(\<forall>r. compute_r2l2 tau s = (Inr r, s) \<longrightarrow>
            (\<exists>k. compute_k lib tau s = (Inr k, s) \<and>
               (\<forall>i < length r. r ! i = 0 \<longrightarrow> k ! i = 1))) \<and>
         (\<exists>dk. fst (compute_dk_dy lib y n s) = Inr dk \<and>
            (\<forall>i < length y. y ! i = 0 \<longrightarrow>
               dk ! i =
                 (if real n < 2 * v
                  then (if odd n then 0
                        else (- 1) ^ (n div 2) * 2 powr (v - 1 - real n) *
                             gamma lib (v - real (n div 2)) * fact n / fact (n div 2))
                  else diff_singular lib (\<lambda>x. float_pow x v * besselk lib v x) 0 n) *
                 (2 powr (1 - v) / gamma lib v))) \<and>
         (length r2l2 = length (rows tau) \<and>
          (\<forall>d \<in> set b. d < ncols tau \<and> 2 + d < length (params s)) \<longrightarrow>
            (\<exists>dy. compute_dy_dtau lib tau b r2l2 s = (Inr dy, s) \<and>
               (\<forall>i < length r2l2. r2l2 ! i = 0 \<longrightarrow>
                  dy ! i = diff_singular_partial lib (\<lambda>args. fst (compute_y_wrapper args s))
                             (replicate (ncols tau) 0) (map (count_list b) [0..<ncols tau]))))"
proof (intro conjI allI impI)
  fix r
  assume "compute_r2l2 tau s = (Inr r, s)"
  then show "\<exists>k. compute_k lib tau s = (Inr k, s) \<and> (\<forall>i < length r. r ! i = 0 \<longrightarrow> k ! i = 1)"
    by (simp add: compute_k_run [OF assms])
next
  have ov: "origin_value lib v n =
      (if real n < 2 * v
       then (if odd n then 0
             else (- 1) ^ (n div 2) * 2 powr (v - 1 - real n) *
                  gamma lib (v - real (n div 2)) * fact n / fact (n div 2))
       else diff_singular lib (\<lambda>x. float_pow x v * besselk lib v x) 0 n)"
  proof (cases "odd n")
    case True
    then have "n mod 2 = 1" by (simp add: odd_iff_mod_2_eq_one)
    with True show ?thesis by (simp add: origin_value_def)
  next
    case False
    then have e: "even n" by simp
    then have m: "n mod 2 \<noteq> 1" by (simp add: even_iff_mod_2_eq_zero)
    show ?thesis
      using False m
      by (simp add: origin_value_def half_even [OF e] float_pow_nat factorial_nat float_pow_pos)
  qed
  show "\<exists>dk. fst (compute_dk_dy lib y n s) = Inr dk \<and>
            (\<forall>i < length y. y ! i = 0 \<longrightarrow>
               dk ! i =
                 (if real n < 2 * v
                  then (if odd n then 0
                        else (- 1) ^ (n div 2) * 2 powr (v - 1 - real n) *
                             gamma lib (v - real (n div 2)) * fact n / fact (n div 2))
                  else diff_singular lib (\<lambda>x. float_pow x v * besselk lib v x) 0 n) *
                 (2 powr (1 - v) / gamma lib v))"
    unfolding ov [symmetric]
    by (simp add: compute_dk_dy_run [OF assms] float_pow_pos)
next
  assume h: "length r2l2 = length (rows tau) \<and>
          (\<forall>d \<in> set b. d < ncols tau \<and> 2 + d < length (params s))"
  then have len: "length r2l2 = length (rows tau)"
    and ok: "\<forall>d \<in> set b. d < ncols tau \<and> 2 + d < length (params s)"
    by blast+
  from ok have "\<forall>d \<in> set b. d < ncols tau" by blast
  then have cd: "count_derivs (replicate (ncols tau) 0) b s =
                   (Inr (map (count_list b) [0..<ncols tau]), s)"
    by (rule count_derivs_zeros)
  from compute_dy_dtau_run [OF assms len ok, of lib] cd
  have run: "compute_dy_dtau lib tau b r2l2 s =
             (Inr (map (\<lambda>z. if fst z \<noteq> 0
                             then sum_list (map (\<lambda>p. partition_term v (params s) p z)
                                    (generate_set_partitions b))
                             else diff_singular_partial lib (\<lambda>args. fst (compute_y_wrapper args s))
                                    (replicate (ncols tau) 0) (map (count_list b) [0..<ncols tau]))
                     (zip r2l2 (rows tau))), s)"
    by auto
  show "\<exists>dy. compute_dy_dtau lib tau b r2l2 s = (Inr dy, s) \<and>
               (\<forall>i < length r2l2. r2l2 ! i = 0 \<longrightarrow>
                  dy ! i = diff_singular_partial lib (\<lambda>args. fst (compute_y_wrapper args s))
                             (replicate (ncols tau) 0) (map (count_list b) [0..<ncols tau]))"
    using len by (simp add: run)
qed

theorem singular_rows_branches_witness:
  "(\<exists>k. compute_k sample_special sample_tau sample_state = (Inr k, sample_state) \<and> k ! 0 = 1) \<and>
   (\<exists>dk. fst (compute_dk_dy (sample_special\<lparr>diff_singular := (\<lambda>f x n. 7)\<rparr>) [0, 1, 2] 3
             sample_state) = Inr dk \<and>
      dk ! 0 = 7 * (2 powr (1 - 3 / 2) / gamma sample_special (3 / 2))) \<and>
   (\<exists>dy. compute_dy_dtau
            (sample_special\<lparr>diff_singular_partial := (\<lambda>f x ns. if ns = [2] then 7 else 0)\<rparr>)
            sample_tau [0, 0] [0, 1, 4] sample_state = (Inr dy, sample_state) \<and> dy ! 0 = 7)"
proof -
  have r: "compute_r2l2 sample_tau sample_state = (Inr [0, 1, 4], sample_state)"
    by (simp add: compute_r2l2_def ret_def sample_tau_def sample_state_def)
  have d: "length [0, 1, 4 :: real] = length (rows sample_tau) \<and>
      (\<forall>d \<in> set [0 :: nat, 0]. d < ncols sample_tau \<and> 2 + d < length (params sample_state))"
    by (simp add: sample_tau_rows sample_state_def)
  have c: "map (count_list [0 :: nat, 0]) [0..<ncols sample_tau] = [2]"
    by (simp add: sample_tau_rows)
  have a: "\<exists>k. compute_k sample_special sample_tau sample_state = (Inr k, sample_state) \<and> k ! 0 = 1"
    using singular_rows_branches [OF sample_state_nu, where tau = sample_tau and lib = sample_special,
        THEN conjunct1, rule_format, OF r]
    by auto
  have b: "\<exists>dk. fst (compute_dk_dy (sample_special\<lparr>diff_singular := (\<lambda>f x n. 7)\<rparr>) [0, 1, 2] 3
             sample_state) = Inr dk \<and>
      dk ! 0 = 7 * (2 powr (1 - 3 / 2) / gamma sample_special (3 / 2))"
    using singular_rows_branches [OF sample_state_nu,
        where lib = "sample_special\<lparr>diff_singular := (\<lambda>f x n. 7)\<rparr>" and y = "[0, 1, 2]" and n = 3,
        THEN conjunct2, THEN conjunct1]
    by auto
  have e: "\<exists>dy. compute_dy_dtau
            (sample_special\<lparr>diff_singular_partial := (\<lambda>f x ns. if ns = [2] then 7 else 0)\<rparr>)
            sample_tau [0, 0] [0, 1, 4] sample_state = (Inr dy, sample_state) \<and> dy ! 0 = 7"
    using singular_rows_branches [OF sample_state_nu,
        where lib = "sample_special\<lparr>diff_singular_partial := (\<lambda>f x ns. if ns = [2] then 7 else 0)\<rparr>"
          and tau = sample_tau and b = "[0, 0]" and ?r2l2.0 = "[0, 1, 4]",
        THEN conjunct2, THEN conjunct2, rule_format, OF d]
    by (auto simp: c)
  from a b e show ?thesis by blast
qed

text \<open>
  On doubles a singular row can hold NaN. For \<^verbatim>\<open>nu = 160.0\<close>, \<^verbatim>\<open>n = 0\<close> and \<^verbatim>\<open>y = [0.0]\<close> the
  closed form \<^verbatim>\<open>2.0**159.0 * gamma(160.0)\<close> of the outer-derivative evaluator exceeds the
  largest double and is \<^verbatim>\<open>inf\<close>, the scale factor \<^verbatim>\<open>2.0**(-159.0) / gamma(160.0)\<close> is below
  the smallest positive double and is \<^verbatim>\<open>0.0\<close>, and \<^verbatim>\<open>dk_dy *= ...\<close> leaves \<^verbatim>\<open>inf * 0.0\<close>,
  that is NaN, in the row that is returned. The same holds with \<^verbatim>\<open>gamma(160.0)\<close> one unit
  in the last place lower.
\<close>

theorem origin_closed_form_nan_on_doubles:
  "fmul (pow_d scipy_doubles (Finite 2 0) (Finite 159 0)) (gamma_d scipy_doubles (Finite 160 0)) =
     PosInf \<and>
   feq (fdiv (pow_d scipy_doubles (Finite 2 0) (Finite (- 159) 0))
             (gamma_d scipy_doubles (Finite 160 0))) (Finite 0 0) \<and>
   compute_dk_dy_ieee scipy_doubles (Finite 160 0) [Finite 0 0] 0 = [NaN] \<and>
   compute_dk_dy_ieee (scipy_doubles\<lparr>gamma_d := (\<lambda>x. Finite 2855815221623077 887)\<rparr>)
     (Finite 160 0) [Finite 0 0] 0 = [NaN]"
  by code_simp

end
